theory Spec2Isabelle
  imports Complex_Main "HOL-Library.Sublist"
begin

section \<open>Python values met by the client\<close>

text \<open>
  The client of \<^verbatim>\<open>Ollama_streamlit.py\<close> handles decoded JSON with duck typing: it
  never checks that a value is a dictionary before calling \<^verbatim>\<open>.get\<close> on it. The
  model therefore keeps every shape \<^verbatim>\<open>json.loads\<close> can return. A dictionary is the
  list of its items (keys are distinct in a Python dictionary, so \<open>map_of\<close> is its
  lookup); a float is the real number it denotes (the non-standard tokens
  \<^verbatim>\<open>NaN\<close> and \<^verbatim>\<open>Infinity\<close> are non-zero floats too and behave like any other
  non-zero \<open>JFloat\<close> in every operation below). A string is the UTF-8 encoding of
  its text, one \<open>char\<close> for each byte.
\<close>

datatype json =
    JNull
  | JBool bool
  | JInt int
  | JFloat real
  | JStr string
  | JArr "json list"
  | JObj "(string \<times> json) list"

text \<open>
  Exceptions are values. \<open>RuntimeError\<close> carries the argument it was raised with;
  \<open>ConnectionError\<close> stands for every failure of the transport itself, before the
  response or in the middle of its body. \<open>JSONDecodeError\<close> is the decode error
  proper, the only one that \<^verbatim>\<open>except json.JSONDecodeError\<close> catches; \<open>ValueError\<close>,
  \<open>RecursionError\<close> and \<open>UnicodeDecodeError\<close> are the other exceptions a decoder
  raises (on an integer literal longer than the conversion limit, on nesting deeper
  than the recursion limit, on bytes that are not text). \<open>OtherError\<close> is an exception
  of any other class, by the name of the class.
\<close>

datatype exn =
    ConnectionError
  | HTTPError
  | JSONDecodeError
  | ValueError
  | RecursionError
  | UnicodeDecodeError
  | TypeError
  | AttributeError
  | KeyError
  | RuntimeError json
  | OtherError string

text \<open>Truth value of an object, as \<^verbatim>\<open>if chunk:\<close> and \<^verbatim>\<open>if obj.get("done"):\<close> test it.\<close>

fun truthy :: "json \<Rightarrow> bool" where
  "truthy JNull = False"
| "truthy (JBool b) = b"
| "truthy (JInt i) = (i \<noteq> 0)"
| "truthy (JFloat x) = (x \<noteq> 0)"
| "truthy (JStr s) = (s \<noteq> [])"
| "truthy (JArr xs) = (xs \<noteq> [])"
| "truthy (JObj kvs) = (kvs \<noteq> [])"

text \<open>
  \<^verbatim>\<open>k in obj\<close> for a string \<open>k\<close>: key membership in a dictionary, element membership
  in a list, substring test in a string, \<^verbatim>\<open>TypeError\<close> on anything else.
\<close>

fun contains :: "json \<Rightarrow> string \<Rightarrow> exn + bool" where
  "contains (JObj kvs) k = Inr (map_of kvs k \<noteq> None)"
| "contains (JArr xs) k = Inr (JStr k \<in> set xs)"
| "contains (JStr s) k = Inr (sublist k s)"
| "contains _ k = Inl TypeError"

text \<open>\<^verbatim>\<open>obj[k]\<close> for a string \<open>k\<close>: only a dictionary can be indexed by a string.\<close>

fun getitem :: "json \<Rightarrow> string \<Rightarrow> exn + json" where
  "getitem (JObj kvs) k = (case map_of kvs k of None \<Rightarrow> Inl KeyError | Some v \<Rightarrow> Inr v)"
| "getitem _ k = Inl TypeError"

text \<open>\<^verbatim>\<open>obj.get(k, d)\<close>: only a dictionary has the method.\<close>

fun get :: "json \<Rightarrow> string \<Rightarrow> json \<Rightarrow> exn + json" where
  "get (JObj kvs) k d = Inr (case map_of kvs k of None \<Rightarrow> d | Some v \<Rightarrow> v)"
| "get _ k d = Inl AttributeError"

text \<open>
  The elements a \<^verbatim>\<open>for\<close> clause draws from a value: the elements of a list, the
  characters of a string, the keys of a dictionary; nothing else is iterable.
\<close>

fun iter :: "json \<Rightarrow> exn + json list" where
  "iter (JArr xs) = Inr xs"
| "iter (JStr s) = Inr (map (\<lambda>c. JStr [c]) s)"
| "iter (JObj kvs) = Inr (map (\<lambda>kv. JStr (fst kv)) kvs)"
| "iter _ = Inl TypeError"

text \<open>
  \<^verbatim>\<open>"".join(acc)\<close>: the concatenation of the items, \<^verbatim>\<open>TypeError\<close> at the first item
  that is not a string.
\<close>

fun join :: "json list \<Rightarrow> exn + string" where
  "join [] = Inr []"
| "join (JStr s # xs) = (case join xs of Inl e \<Rightarrow> Inl e | Inr t \<Rightarrow> Inr (s @ t))"
| "join (x # xs) = Inl TypeError"

text \<open>
  \<^verbatim>\<open>s.rstrip(chars)\<close>, for \<open>chars\<close> of ASCII characters (one byte each).
\<close>

definition rstrip :: "string \<Rightarrow> string \<Rightarrow> string" where
  "rstrip s chars = rev (dropWhile (\<lambda>c. c \<in> set chars) (rev s))"

text \<open>
  The whitespace of \<^verbatim>\<open>str.isspace\<close> and \<^verbatim>\<open>str.strip()\<close>, each character by the bytes
  of its UTF-8 encoding: U+0009 to U+000D, U+001C to U+001F, U+0020, then U+0085,
  U+00A0, U+1680, U+2000 to U+200A, U+2028, U+2029, U+202F, U+205F and U+3000.
\<close>

definition whitespace :: "nat list list" where
  "whitespace =
     [[0x09], [0x0A], [0x0B], [0x0C], [0x0D], [0x1C], [0x1D], [0x1E], [0x1F], [0x20],
      [0xC2, 0x85], [0xC2, 0xA0],
      [0xE1, 0x9A, 0x80],
      [0xE2, 0x80, 0x80], [0xE2, 0x80, 0x81], [0xE2, 0x80, 0x82], [0xE2, 0x80, 0x83],
      [0xE2, 0x80, 0x84], [0xE2, 0x80, 0x85], [0xE2, 0x80, 0x86], [0xE2, 0x80, 0x87],
      [0xE2, 0x80, 0x88], [0xE2, 0x80, 0x89], [0xE2, 0x80, 0x8A],
      [0xE2, 0x80, 0xA8], [0xE2, 0x80, 0xA9], [0xE2, 0x80, 0xAF],
      [0xE2, 0x81, 0x9F],
      [0xE3, 0x80, 0x80]]"

definition isspace :: "string \<Rightarrow> bool" where
  "isspace c = (map of_char c \<in> set whitespace)"

text \<open>
  \<^verbatim>\<open>s.lstrip()\<close>: the whitespace characters at the start of the text are removed. In
  UTF-8 no encoding of a character is the beginning of another, so the first
  character is a whitespace exactly when the bytes of one begin the string.
\<close>

fun lstrip :: "string \<Rightarrow> string" where
  "lstrip (a # b # c # s) =
     (if isspace [a] then lstrip (b # c # s)
      else if isspace [a, b] then lstrip (c # s)
      else if isspace [a, b, c] then lstrip s
      else a # b # c # s)"
| "lstrip [a, b] =
     (if isspace [a] then lstrip [b] else if isspace [a, b] then [] else [a, b])"
| "lstrip [a] = (if isspace [a] then [] else [a])"
| "lstrip [] = []"

text \<open>
  The same at the end of the text, read backwards: \<open>rstrip_rev\<close> takes the reversed
  string and gives the reversed result. The last character is a whitespace exactly
  when the bytes of one end the string.
\<close>

fun rstrip_rev :: "string \<Rightarrow> string" where
  "rstrip_rev (c # b # a # s) =
     (if isspace [c] then rstrip_rev (b # a # s)
      else if isspace [b, c] then rstrip_rev (a # s)
      else if isspace [a, b, c] then rstrip_rev s
      else c # b # a # s)"
| "rstrip_rev [b, a] =
     (if isspace [b] then rstrip_rev [a] else if isspace [a, b] then [] else [b, a])"
| "rstrip_rev [a] = (if isspace [a] then [] else [a])"
| "rstrip_rev [] = []"

text \<open>\<^verbatim>\<open>s.strip()\<close>: whitespace is removed at both ends.\<close>

definition strip :: "string \<Rightarrow> string" where
  "strip s = rev (rstrip_rev (rev (lstrip s)))"

section \<open>Transport\<close>

type_synonym headers = "(string \<times> string) list"

definition api_url :: "string \<Rightarrow> string \<Rightarrow> string" where
  "api_url base_url path = rstrip base_url ''/'' @ path"

definition auth_headers :: "string option \<Rightarrow> headers" where
  "auth_headers api_key =
     (let hdrs = [(''Content-Type'', ''application/json'')] in
      case api_key of
        None \<Rightarrow> hdrs
      | Some k \<Rightarrow> if k \<noteq> [] then hdrs @ [(''Authorization'', ''Bearer '' @ k)] else hdrs)"

text \<open>
  What \<^verbatim>\<open>requests.get\<close> and \<^verbatim>\<open>requests.post\<close> hand back, as far as the client looks
  at it: whether \<^verbatim>\<open>raise_for_status()\<close> raises, the body that \<^verbatim>\<open>.json()\<close> decodes,
  the lines that \<^verbatim>\<open>iter_lines(decode_unicode=True)\<close> delivers, and how that iterator
  ends: \<open>broken\<close> is the exception it raises after the last line it delivers, when
  the connection drops or times out in the middle of the body, and \<open>None\<close> when the
  body arrives in full. The network is a parameter of the client: a function from
  the request to either the exception the call raises or the response.
\<close>

record response =
  http_error :: bool
  body :: string
  iter_lines :: "string list"
  broken :: "exn option"

section \<open>Model catalog\<close>

definition default_models :: "json list" where
  "default_models = [JStr ''llama3.1'', JStr ''llama3'', JStr ''qwen2.5'', JStr ''phi4'']"

text \<open>\<^verbatim>\<open>[m["name"] for m in ...]\<close>: the first record that cannot be indexed raises.\<close>

fun names :: "json list \<Rightarrow> exn + json list" where
  "names [] = Inr []"
| "names (m # ms) =
     (case getitem m ''name'' of
        Inl e \<Rightarrow> Inl e
      | Inr n \<Rightarrow> (case names ms of Inl e \<Rightarrow> Inl e | Inr ns \<Rightarrow> Inr (n # ns)))"

text \<open>
  The body of the \<^verbatim>\<open>try\<close> block of \<^verbatim>\<open>list_models\<close>. The decoder of the body is a
  parameter: it gives the decoded value or the exception it raises.
\<close>

definition list_models_try ::
  "(string \<Rightarrow> headers \<Rightarrow> exn + response) \<Rightarrow> (string \<Rightarrow> exn + json) \<Rightarrow>
   string \<Rightarrow> string \<Rightarrow> exn + json list" where
  "list_models_try requests_get loads base_url api_key =
     (case requests_get (api_url base_url ''/api/tags'') (auth_headers (Some api_key)) of
        Inl e \<Rightarrow> Inl e
      | Inr resp \<Rightarrow>
          if http_error resp then Inl HTTPError
          else (case loads (body resp) of
                  Inl e \<Rightarrow> Inl e
                | Inr data \<Rightarrow>
                    (case get data ''models'' (JArr []) of
                       Inl e \<Rightarrow> Inl e
                     | Inr ms \<Rightarrow> (case iter ms of Inl e \<Rightarrow> Inl e | Inr xs \<Rightarrow> names xs))))"

text \<open>
  \<^verbatim>\<open>list_models\<close> itself: the result of the \<^verbatim>\<open>try\<close> block, or the warning and the
  defaults. The function cannot raise, so its result is not a sum. The caching
  decorator of the source wraps this function and is not part of it.
\<close>

record catalog =
  warning :: "exn option"
  models :: "json list"

definition list_models ::
  "(string \<Rightarrow> headers \<Rightarrow> exn + response) \<Rightarrow> (string \<Rightarrow> exn + json) \<Rightarrow>
   string \<Rightarrow> string \<Rightarrow> catalog" where
  "list_models requests_get loads base_url api_key =
     (case list_models_try requests_get loads base_url api_key of
        Inl e \<Rightarrow> \<lparr>warning = Some e, models = default_models\<rparr>
      | Inr ns \<Rightarrow> \<lparr>warning = None, models = ns\<rparr>)"

section \<open>Streaming chat client\<close>

record message =
  role :: string
  content :: string

definition message_dict :: "message \<Rightarrow> json" where
  "message_dict m = JObj [(''role'', JStr (role m)), (''content'', JStr (content m))]"

definition payload :: "string \<Rightarrow> message list \<Rightarrow> real \<Rightarrow> json" where
  "payload model msgs temperature =
     JObj [(''model'', JStr model),
           (''messages'', JArr (map message_dict msgs)),
           (''stream'', JBool True),
           (''options'', JObj [(''temperature'', JFloat temperature)])]"

text \<open>
  One pass through the body of the \<^verbatim>\<open>for line in r.iter_lines(...)\<close> loop: either
  the exception it raises, or the fragments it yields (none or one) together with
  whether it leaves the loop by \<^verbatim>\<open>break\<close>. \<open>loads\<close> is \<^verbatim>\<open>json.loads\<close>: the decoded
  value or the exception raised. Of these exceptions the \<^verbatim>\<open>except\<close> clause catches
  \<open>JSONDecodeError\<close> alone; any other leaves the generator.
\<close>

definition stream_chat_line ::
  "(string \<Rightarrow> exn + json) \<Rightarrow> string \<Rightarrow> exn + (json list \<times> bool)" where
  "stream_chat_line loads line =
     (if line = [] then Inr ([], False)
      else case loads line of
        Inl e \<Rightarrow> if e = JSONDecodeError then Inr ([], False) else Inl e
      | Inr obj \<Rightarrow>
          (case contains obj ''error'' of
             Inl e \<Rightarrow> Inl e
           | Inr True \<Rightarrow>
               (case getitem obj ''error'' of
                  Inl e \<Rightarrow> Inl e
                | Inr v \<Rightarrow> Inl (RuntimeError v))
           | Inr False \<Rightarrow>
               (case get obj ''message'' (JObj []) of
                  Inl e \<Rightarrow> Inl e
                | Inr msg \<Rightarrow>
                    (case get msg ''content'' (JStr []) of
                       Inl e \<Rightarrow> Inl e
                     | Inr chunk \<Rightarrow>
                         (case get obj ''done'' JNull of
                            Inl e \<Rightarrow> Inl e
                          | Inr d \<Rightarrow>
                              Inr (if truthy chunk then [chunk] else [], truthy d))))))"

text \<open>
  A run of the generator whose consumer takes every fragment: the fragments in the
  order they were yielded, the exception that ended it (if one did), and the lines
  it never read. The loop over the lines takes the lines the iterator delivers and
  \<open>fin\<close>, the exception with which the iterator ends (if it does): when no line has
  left the loop before, that exception leaves the generator.
\<close>

record run =
  yielded :: "json list"
  raised :: "exn option"
  unread :: "string list"

fun stream_chat_lines ::
  "(string \<Rightarrow> exn + json) \<Rightarrow> string list \<Rightarrow> exn option \<Rightarrow> run" where
  "stream_chat_lines loads [] fin = \<lparr>yielded = [], raised = fin, unread = []\<rparr>"
| "stream_chat_lines loads (line # rest) fin =
     (case stream_chat_line loads line of
        Inl e \<Rightarrow> \<lparr>yielded = [], raised = Some e, unread = rest\<rparr>
      | Inr (out, stop) \<Rightarrow>
          if stop then \<lparr>yielded = out, raised = None, unread = rest\<rparr>
          else (let r = stream_chat_lines loads rest fin in r\<lparr>yielded := out @ yielded r\<rparr>))"

definition stream_chat ::
  "(string \<Rightarrow> headers \<Rightarrow> json \<Rightarrow> exn + response) \<Rightarrow> (string \<Rightarrow> exn + json) \<Rightarrow>
   string \<Rightarrow> string \<Rightarrow> string \<Rightarrow> message list \<Rightarrow> real \<Rightarrow> run" where
  "stream_chat requests_post loads base_url api_key model msgs temperature =
     (case requests_post (api_url base_url ''/api/chat'') (auth_headers (Some api_key))
             (payload model msgs temperature) of
        Inl e \<Rightarrow> \<lparr>yielded = [], raised = Some e, unread = []\<rparr>
      | Inr r \<Rightarrow>
          if http_error r then \<lparr>yielded = [], raised = Some HTTPError, unread = iter_lines r\<rparr>
          else stream_chat_lines loads (iter_lines r) (broken r))"

section \<open>The assistant reply of the session\<close>

text \<open>
  The \<^verbatim>\<open>for chunk in stream_chat(...)\<close> loop of the caller: each fragment is appended
  to \<open>acc\<close> and the whole of \<open>acc\<close> is joined for display, which raises on a fragment
  that is not a string.
\<close>

fun accumulate :: "json list \<Rightarrow> json list \<Rightarrow> exn + json list" where
  "accumulate [] acc = Inr acc"
| "accumulate (chunk # chunks) acc =
     (case join (acc @ [chunk]) of
        Inl e \<Rightarrow> Inl e
      | Inr shown \<Rightarrow> accumulate chunks (acc @ [chunk]))"

text \<open>
  The \<^verbatim>\<open>try\<close> / \<^verbatim>\<open>except Exception\<close> / \<^verbatim>\<open>else\<close> statement. \<open>msgs\<close> is the transcript
  when the stream starts (the user's message is already in it); \<open>failed\<close> is the
  exception reported to the operator. An exception of the caller's own loop comes
  before the one that ends the generator, since every fragment is handled before the
  generator goes on: when a join of the loop raises, the generator is left suspended
  at its \<^verbatim>\<open>yield\<close> and the rest of its run never happens. The join of the \<^verbatim>\<open>else\<close>
  branch repeats the last join of the loop (or joins the empty list), so its failure
  branch is never taken.
\<close>

record turn =
  messages :: "message list"
  failed :: "exn option"

definition assistant_reply :: "run \<Rightarrow> message list \<Rightarrow> turn" where
  "assistant_reply r msgs =
     (case accumulate (yielded r) [] of
        Inl e \<Rightarrow> \<lparr>messages = msgs, failed = Some e\<rparr>
      | Inr acc \<Rightarrow>
          (case raised r of
             Some e \<Rightarrow> \<lparr>messages = msgs, failed = Some e\<rparr>
           | None \<Rightarrow>
               (case join acc of
                  Inl e \<Rightarrow> \<lparr>messages = msgs, failed = Some e\<rparr>
                | Inr s \<Rightarrow>
                    \<lparr>messages = msgs @ [\<lparr>role = ''assistant'', content = strip s\<rparr>],
                     failed = None\<rparr>)))"

section \<open>The vocabulary of the specification\<close>

text \<open>
  The specification sorts the lines of a stream by what they decode to. These
  predicates follow its words, not the code: a line carries an \<^verbatim>\<open>error\<close> field, a
  \<^verbatim>\<open>done\<close> marker, a nested message content, or none of them.
\<close>

definition carries_error :: "json \<Rightarrow> bool" where
  "carries_error obj = (case obj of JObj kvs \<Rightarrow> map_of kvs ''error'' \<noteq> None | _ \<Rightarrow> False)"

text \<open>A JSON object whose \<^verbatim>\<open>message\<close>, when it has one, is a JSON object again.\<close>

definition object_shaped :: "json \<Rightarrow> bool" where
  "object_shaped obj =
     (case obj of
        JObj kvs \<Rightarrow>
          (case map_of kvs ''message'' of
             None \<Rightarrow> True
           | Some (JObj m) \<Rightarrow> True
           | Some _ \<Rightarrow> False)
      | _ \<Rightarrow> False)"

definition done_marker :: "json \<Rightarrow> bool" where
  "done_marker obj =
     (case obj of
        JObj kvs \<Rightarrow> (case map_of kvs ''done'' of None \<Rightarrow> False | Some d \<Rightarrow> truthy d)
      | _ \<Rightarrow> False)"

text \<open>The nested message content of a decoded line; the empty string when it has none.\<close>

definition message_content :: "json \<Rightarrow> json" where
  "message_content obj =
     (case obj of
        JObj kvs \<Rightarrow>
          (case map_of kvs ''message'' of
             Some (JObj m) \<Rightarrow> (case map_of m ''content'' of None \<Rightarrow> JStr [] | Some c \<Rightarrow> c)
           | _ \<Rightarrow> JStr [])
      | _ \<Rightarrow> JStr [])"

text \<open>
  The fragment a line stands for: the message content of a line that is not blank and
  decodes, when that content is not empty (for a content that is not a string:
  when Python takes it for true).
\<close>

definition fragment :: "(string \<Rightarrow> exn + json) \<Rightarrow> string \<Rightarrow> json list" where
  "fragment loads line =
     (if line = [] then []
      else case loads line of
        Inl e \<Rightarrow> []
      | Inr obj \<Rightarrow> if truthy (message_content obj) then [message_content obj] else [])"

text \<open>
  A line at which the stream fails: the decoder raises something other than its
  decode error, or the decoded value carries an \<^verbatim>\<open>error\<close> field or is not of object
  shape. A line after which no line is read: one of these, or one with a \<^verbatim>\<open>done\<close>
  marker.
\<close>

definition fails :: "(string \<Rightarrow> exn + json) \<Rightarrow> string \<Rightarrow> bool" where
  "fails loads line =
     (line \<noteq> [] \<and>
      (case loads line of
         Inl e \<Rightarrow> e \<noteq> JSONDecodeError
       | Inr obj \<Rightarrow> carries_error obj \<or> \<not> object_shaped obj))"

definition stops :: "(string \<Rightarrow> exn + json) \<Rightarrow> string \<Rightarrow> bool" where
  "stops loads line =
     (line \<noteq> [] \<and>
      (case loads line of
         Inl e \<Rightarrow> e \<noteq> JSONDecodeError
       | Inr obj \<Rightarrow> carries_error obj \<or> \<not> object_shaped obj \<or> done_marker obj))"

text \<open>The lines of a stream up to and including the first one that stops it.\<close>

definition lines_read :: "(string \<Rightarrow> exn + json) \<Rightarrow> string list \<Rightarrow> string list" where
  "lines_read loads ls =
     takeWhile (\<lambda>l. \<not> stops loads l) ls @ take 1 (dropWhile (\<lambda>l. \<not> stops loads l) ls)"

text \<open>
  A line with nothing in it for the client: blank, rejected by the decoder with its
  decode error, or a JSON object with no \<^verbatim>\<open>error\<close> field, no message content and no
  \<^verbatim>\<open>done\<close> marker.
\<close>

definition skipped :: "(string \<Rightarrow> exn + json) \<Rightarrow> string \<Rightarrow> bool" where
  "skipped loads line =
     (line = [] \<or>
      (case loads line of
         Inl e \<Rightarrow> e = JSONDecodeError
       | Inr obj \<Rightarrow>
           object_shaped obj \<and> \<not> carries_error obj \<and>
           \<not> truthy (message_content obj) \<and> \<not> done_marker obj))"

text \<open>A model record that exposes a \<^verbatim>\<open>name\<close> field.\<close>

definition has_name :: "json \<Rightarrow> bool" where
  "has_name m = (case m of JObj kv \<Rightarrow> map_of kv ''name'' \<noteq> None | _ \<Rightarrow> False)"

text \<open>
  The failures of the catalog fetch that the specification lists: the request
  itself fails, the status is an error, the decoder of the body raises, or a model
  record of the \<^verbatim>\<open>models\<close> list has no \<^verbatim>\<open>name\<close> field.
\<close>

definition fetch_failure :: "exn + response \<Rightarrow> (string \<Rightarrow> exn + json) \<Rightarrow> bool" where
  "fetch_failure reply loads =
     (case reply of
        Inl e \<Rightarrow> True
      | Inr resp \<Rightarrow>
          http_error resp \<or>
          (case loads (body resp) of
             Inl e \<Rightarrow> True
           | Inr (JObj kvs) \<Rightarrow>
               (case map_of kvs ''models'' of
                  Some (JArr ms) \<Rightarrow> list_ex (\<lambda>m. \<not> has_name m) ms
                | _ \<Rightarrow> False)
           | Inr _ \<Rightarrow> False))"

section \<open>A service to run the client against\<close>

text \<open>
  Lines and bodies as a service sends them, and what \<^verbatim>\<open>json.loads\<close> makes of each.
  \<open>line_nbsp\<close> ends its content with a no-break space (U+00A0, two bytes in
  UTF-8); \<open>line_deep\<close> is a hundred thousand opening brackets, nested beyond the
  recursion limit of the decoder. \<open>decode\<close> is \<^verbatim>\<open>json.loads\<close> cut down to these texts:
  every other text, such as \<^verbatim>\<open>not json\<close>, stands for one it rejects with its decode
  error. The theorems below hold for every decoder; this one only serves to run the
  client on concrete streams.
\<close>

definition line_hel :: string where
  \<open>line_hel = ''{"message":{"content":"Hel"}}''\<close>

definition line_lo :: string where
  \<open>line_lo = ''{"message":{"content":"lo"}}''\<close>

definition line_nbsp :: string where
  \<open>line_nbsp = ''{"message":{"content":"lo'' @ [CHR 0xC2, CHR 0xA0] @ ''"}}''\<close>

definition line_space :: string where
  \<open>line_space = ''{"message":{"content":" "}}''\<close>

definition line_done :: string where
  \<open>line_done = ''{"done":true}''\<close>

definition line_error :: string where
  \<open>line_error = ''{"error":"rate limited"}''\<close>

definition line_done_error :: string where
  \<open>line_done_error = ''{"error":"overloaded","done":true}''\<close>

definition line_status :: string where
  \<open>line_status = ''{"status":"loading"}''\<close>

definition line_five :: string where
  \<open>line_five = ''5''\<close>

definition line_number_content :: string where
  \<open>line_number_content = ''{"message":{"content":5}}''\<close>

definition line_noise :: string where
  \<open>line_noise = ''not json''\<close>

definition line_deep :: string where
  "line_deep = replicate 100000 (CHR ''['')"

definition body_tags :: string where
  \<open>body_tags = ''{"models":[{"name":"qwen2.5"},{"name":"llama3:8b"},{"name":"qwen2.5"}]}''\<close>

definition body_nameless :: string where
  \<open>body_nameless = ''{"models":[{"name":"llama3:8b"},{"model":"phi4"}]}''\<close>

definition body_version :: string where
  \<open>body_version = ''{"version":"0.5.1"}''\<close>

definition wire :: "(string \<times> json) list" where
  "wire =
     [(line_hel, JObj [(''message'', JObj [(''content'', JStr ''Hel'')])]),
      (line_lo, JObj [(''message'', JObj [(''content'', JStr ''lo'')])]),
      (line_nbsp, JObj [(''message'', JObj [(''content'', JStr (''lo'' @ [CHR 0xC2, CHR 0xA0]))])]),
      (line_space, JObj [(''message'', JObj [(''content'', JStr '' '')])]),
      (line_done, JObj [(''done'', JBool True)]),
      (line_error, JObj [(''error'', JStr ''rate limited'')]),
      (line_done_error, JObj [(''error'', JStr ''overloaded''), (''done'', JBool True)]),
      (line_status, JObj [(''status'', JStr ''loading'')]),
      (line_five, JInt 5),
      (line_number_content, JObj [(''message'', JObj [(''content'', JInt 5)])]),
      (body_tags,
       JObj [(''models'',
              JArr [JObj [(''name'', JStr ''qwen2.5'')],
                    JObj [(''name'', JStr ''llama3:8b'')],
                    JObj [(''name'', JStr ''qwen2.5'')]])]),
      (body_nameless,
       JObj [(''models'',
              JArr [JObj [(''name'', JStr ''llama3:8b'')],
                    JObj [(''model'', JStr ''phi4'')]])]),
      (body_version, JObj [(''version'', JStr ''0.5.1'')])]"

definition decode :: "string \<Rightarrow> exn + json" where
  "decode s =
     (case map_of wire s of
        Some v \<Rightarrow> Inr v
      | None \<Rightarrow> if s = line_deep then Inl RecursionError else Inl JSONDecodeError)"

text \<open>
  A local service: it answers at its own address only, with the given lines or body;
  any other address cannot be reached.
\<close>

definition local_url :: string where
  "local_url = ''http://localhost:11434''"

definition chat_service :: "string list \<Rightarrow> string \<Rightarrow> headers \<Rightarrow> json \<Rightarrow> exn + response" where
  "chat_service ls url hdrs data =
     (if url = ''http://localhost:11434/api/chat''
      then Inr \<lparr>http_error = False, body = [], iter_lines = ls, broken = None\<rparr>
      else Inl ConnectionError)"

text \<open>The same service on a connection that drops after the given lines.\<close>

definition dropped_chat_service :: "string list \<Rightarrow> string \<Rightarrow> headers \<Rightarrow> json \<Rightarrow> exn + response" where
  "dropped_chat_service ls url hdrs data =
     (if url = ''http://localhost:11434/api/chat''
      then Inr \<lparr>http_error = False, body = [], iter_lines = ls, broken = Some ConnectionError\<rparr>
      else Inl ConnectionError)"

definition tags_service :: "string \<Rightarrow> string \<Rightarrow> headers \<Rightarrow> exn + response" where
  "tags_service b url hdrs =
     (if url = ''http://localhost:11434/api/tags''
      then Inr \<lparr>http_error = False, body = b, iter_lines = [], broken = None\<rparr>
      else Inl ConnectionError)"

text \<open>A hosted service that answers every request without a bearer credential by an error status.\<close>

definition hosted_chat_service :: "string list \<Rightarrow> string \<Rightarrow> headers \<Rightarrow> json \<Rightarrow> exn + response" where
  "hosted_chat_service ls url hdrs data =
     Inr \<lparr>http_error = (map_of hdrs ''Authorization'' = None), body = [], iter_lines = ls,
         broken = None\<rparr>"

definition hosted_tags_service :: "string \<Rightarrow> string \<Rightarrow> headers \<Rightarrow> exn + response" where
  "hosted_tags_service b url hdrs =
     Inr \<lparr>http_error = (map_of hdrs ''Authorization'' = None), body = b, iter_lines = [],
         broken = None\<rparr>"

definition transcript :: "message list" where
  "transcript =
     [\<lparr>role = ''system'', content = ''You are a helpful assistant.''\<rparr>,
      \<lparr>role = ''user'', content = ''Say hello''\<rparr>]"

text \<open>The client run against the local service that sends the given lines.\<close>

definition local_chat :: "string list \<Rightarrow> run" where
  "local_chat ls = stream_chat (chat_service ls) decode (local_url @ ''/'') [] ''llama3'' transcript (1 / 5)"

definition dropped_chat :: "string list \<Rightarrow> run" where
  "dropped_chat ls =
     stream_chat (dropped_chat_service ls) decode (local_url @ ''/'') [] ''llama3'' transcript (1 / 5)"

section \<open>Transport: the joined address\<close>

lemma rstrip_trailing_slash: "rstrip (s @ ''/'') ''/'' = rstrip s ''/''"
  by (simp add: rstrip_def)

text \<open>
  C8. For every base address and every path, \<^verbatim>\<open>api_url(base + "/", path)\<close> is
  \<^verbatim>\<open>api_url(base, path)\<close>: the joined address does not depend on a trailing slash of
  the base address.
\<close>

theorem api_url_trailing_slash:
  "api_url (base_url @ ''/'') path = api_url base_url path"
  unfolding api_url_def by (simp only: rstrip_trailing_slash)

section \<open>One line of the stream\<close>

text \<open>
  What the loop body does with a line, shape by shape; then the same in the words of
  the specification: a line either passes, ends the stream, or fails.
\<close>

lemma line_blank: "stream_chat_line loads [] = Inr ([], False)"
  by (simp add: stream_chat_line_def)

lemma line_undecodable:
  "loads l = Inl JSONDecodeError \<Longrightarrow> stream_chat_line loads l = Inr ([], False)"
  by (simp add: stream_chat_line_def)

lemma line_decoder_raises:
  "l \<noteq> [] \<Longrightarrow> loads l = Inl e \<Longrightarrow> e \<noteq> JSONDecodeError \<Longrightarrow> stream_chat_line loads l = Inl e"
  by (simp add: stream_chat_line_def)

lemma line_error:
  "l \<noteq> [] \<Longrightarrow> loads l = Inr (JObj kvs) \<Longrightarrow> map_of kvs ''error'' = Some v \<Longrightarrow>
   stream_chat_line loads l = Inl (RuntimeError v)"
  by (simp add: stream_chat_line_def)

lemma line_not_object:
  "l \<noteq> [] \<Longrightarrow> loads l = Inr obj \<Longrightarrow> \<forall>kvs. obj \<noteq> JObj kvs \<Longrightarrow>
   \<exists>e. stream_chat_line loads l = Inl e"
  by (cases obj) (simp_all add: stream_chat_line_def split: bool.splits)

lemma line_bad_message:
  "l \<noteq> [] \<Longrightarrow> loads l = Inr (JObj kvs) \<Longrightarrow> map_of kvs ''error'' = None \<Longrightarrow>
   map_of kvs ''message'' = Some m \<Longrightarrow> \<forall>mk. m \<noteq> JObj mk \<Longrightarrow>
   stream_chat_line loads l = Inl AttributeError"
  by (cases m) (simp_all add: stream_chat_line_def)

lemma line_object:
  "l \<noteq> [] \<Longrightarrow> loads l = Inr (JObj kvs) \<Longrightarrow> map_of kvs ''error'' = None \<Longrightarrow>
   object_shaped (JObj kvs) \<Longrightarrow>
   stream_chat_line loads l = Inr (fragment loads l, done_marker (JObj kvs))"
  by (auto simp add: stream_chat_line_def fragment_def object_shaped_def done_marker_def
      message_content_def split: option.splits json.splits)

lemma fails_stops: "fails loads l \<Longrightarrow> stops loads l"
  by (auto simp add: fails_def stops_def split: sum.splits)

lemma line_passes:
  assumes "\<not> stops loads l"
  shows "stream_chat_line loads l = Inr (fragment loads l, False)"
proof (cases "l = [] \<or> (\<exists>e. loads l = Inl e)")
  case True
  with assms have "l = [] \<or> loads l = Inl JSONDecodeError"
    by (auto simp add: stops_def)
  then show ?thesis
    by (auto simp add: line_blank line_undecodable fragment_def)
next
  case False
  then obtain obj where l: "l \<noteq> []" and obj: "loads l = Inr obj"
    by (cases "loads l") auto
  from assms l obj have ok: "\<not> carries_error obj" "object_shaped obj" "\<not> done_marker obj"
    by (simp_all add: stops_def)
  from ok(2) obtain kvs where kvs: "obj = JObj kvs"
    by (cases obj) (simp_all add: object_shaped_def)
  with ok(1) have "map_of kvs ''error'' = None"
    by (simp add: carries_error_def)
  with l obj kvs ok show ?thesis
    by (simp add: line_object)
qed

lemma line_done:
  assumes "stops loads l" and "\<not> fails loads l"
  shows "stream_chat_line loads l = Inr (fragment loads l, True)"
proof -
  from assms obtain obj where l: "l \<noteq> []" and obj: "loads l = Inr obj"
    by (cases "loads l") (auto simp add: stops_def fails_def)
  from assms l obj have ok: "\<not> carries_error obj" "object_shaped obj" "done_marker obj"
    by (auto simp add: stops_def fails_def)
  from ok(2) obtain kvs where kvs: "obj = JObj kvs"
    by (cases obj) (simp_all add: object_shaped_def)
  with ok(1) have "map_of kvs ''error'' = None"
    by (simp add: carries_error_def)
  with l obj kvs ok show ?thesis
    by (simp add: line_object)
qed

lemma line_fails:
  assumes "fails loads l"
  shows "\<exists>e. stream_chat_line loads l = Inl e"
proof (cases "loads l")
  case (Inl e)
  with assms show ?thesis
    by (simp add: fails_def line_decoder_raises)
next
  case (Inr obj)
  with assms have l: "l \<noteq> []" and obj: "loads l = Inr obj"
    and bad: "carries_error obj \<or> \<not> object_shaped obj"
    by (auto simp add: fails_def)
  show ?thesis
  proof (cases "\<exists>kvs. obj = JObj kvs")
    case False
    with l obj show ?thesis
      by (simp add: line_not_object)
  next
    case True
    then obtain kvs where kvs: "obj = JObj kvs" ..
    show ?thesis
    proof (cases "map_of kvs ''error''")
      case (Some v)
      with l obj kvs show ?thesis
        by (simp add: line_error)
    next
      case None
      with bad kvs have "\<not> object_shaped (JObj kvs)"
        by (simp add: carries_error_def)
      then obtain m where "map_of kvs ''message'' = Some m" and "\<forall>mk. m \<noteq> JObj mk"
        by (auto simp add: object_shaped_def split: option.splits json.splits)
      with l obj kvs None show ?thesis
        by (simp add: line_bad_message)
    qed
  qed
qed

section \<open>The loop over the lines\<close>

lemma lines_read_Nil: "lines_read loads [] = []"
  by (simp add: lines_read_def)

lemma lines_read_stop: "stops loads l \<Longrightarrow> lines_read loads (l # ls) = [l]"
  by (simp add: lines_read_def)

lemma lines_read_pass: "\<not> stops loads l \<Longrightarrow> lines_read loads (l # ls) = l # lines_read loads ls"
  by (simp add: lines_read_def)

lemma lines_pass_step:
  "\<not> stops loads l \<Longrightarrow>
   stream_chat_lines loads (l # rest) fin =
     (stream_chat_lines loads rest fin)
       \<lparr>yielded := fragment loads l @ yielded (stream_chat_lines loads rest fin)\<rparr>"
  by (simp add: line_passes Let_def)

lemma lines_done_step:
  "stops loads l \<Longrightarrow> \<not> fails loads l \<Longrightarrow>
   stream_chat_lines loads (l # rest) fin =
     \<lparr>yielded = fragment loads l, raised = None, unread = rest\<rparr>"
  by (simp add: line_done)

lemma lines_fail_step:
  assumes "fails loads l"
  shows "\<exists>e. stream_chat_lines loads (l # rest) fin = \<lparr>yielded = [], raised = Some e, unread = rest\<rparr>"
proof -
  from line_fails [OF assms] obtain e where "stream_chat_line loads l = Inl e" ..
  then show ?thesis by simp
qed

lemma lines_pass_prefix:
  "\<forall>l\<in>set before. \<not> stops loads l \<Longrightarrow>
   stream_chat_lines loads (before @ rest) fin =
     (stream_chat_lines loads rest fin)
       \<lparr>yielded := concat (map (fragment loads) before) @ yielded (stream_chat_lines loads rest fin)\<rparr>"
proof (induction before)
  case Nil
  show ?case by simp
next
  case (Cons l before)
  then have l: "\<not> stops loads l" and IH: "stream_chat_lines loads (before @ rest) fin =
     (stream_chat_lines loads rest fin)
       \<lparr>yielded := concat (map (fragment loads) before) @ yielded (stream_chat_lines loads rest fin)\<rparr>"
    by simp_all
  show ?case
    by (simp add: lines_pass_step [OF l] IH del: stream_chat_lines.simps)
qed

lemma lines_raised_iff:
  "raised (stream_chat_lines loads ls fin) \<noteq> None \<longleftrightarrow>
     (\<exists>l\<in>set (lines_read loads ls). fails loads l) \<or>
     (fin \<noteq> None \<and> (\<forall>l\<in>set ls. \<not> stops loads l))"
proof (induction ls)
  case Nil
  show ?case by (simp add: lines_read_Nil)
next
  case (Cons l ls)
  show ?case
  proof (cases "stops loads l")
    case False
    then have "\<not> fails loads l" using fails_stops by blast
    with False Cons show ?thesis
      by (simp add: lines_pass_step lines_read_pass del: stream_chat_lines.simps)
  next
    case True
    show ?thesis
    proof (cases "fails loads l")
      case True
      from lines_fail_step [OF this] obtain e where
        "stream_chat_lines loads (l # ls) fin = \<lparr>yielded = [], raised = Some e, unread = ls\<rparr>" ..
      with True \<open>stops loads l\<close> show ?thesis
        by (simp add: lines_read_stop del: stream_chat_lines.simps)
    next
      case False
      with True show ?thesis
        by (simp add: lines_done_step lines_read_stop del: stream_chat_lines.simps)
    qed
  qed
qed

text \<open>A run that has left the loop at a line does not depend on how the iterator ends.\<close>

lemma lines_stop_any_end:
  "\<exists>l\<in>set ls. stops loads l \<Longrightarrow> stream_chat_lines loads ls fin = stream_chat_lines loads ls fin'"
proof (induction ls)
  case Nil
  then show ?case by simp
next
  case (Cons l ls)
  show ?case
  proof (cases "stops loads l")
    case False
    with Cons show ?thesis
      by (simp add: lines_pass_step del: stream_chat_lines.simps)
  next
    case True
    show ?thesis
    proof (cases "fails loads l")
      case True
      from line_fails [OF this] obtain e where "stream_chat_line loads l = Inl e" ..
      then show ?thesis by simp
    next
      case False
      with True show ?thesis
        by (simp add: lines_done_step del: stream_chat_lines.simps)
    qed
  qed
qed

lemma lines_pass_yielded_any_end:
  "\<forall>l\<in>set ls. \<not> stops loads l \<Longrightarrow>
   yielded (stream_chat_lines loads ls fin) = yielded (stream_chat_lines loads ls fin')"
  by (induction ls) (simp_all add: lines_pass_step del: stream_chat_lines.simps, simp)

lemma lines_yielded:
  "raised (stream_chat_lines loads ls fin) = None \<Longrightarrow>
   yielded (stream_chat_lines loads ls fin) = concat (map (fragment loads) (lines_read loads ls))"
proof (induction ls)
  case Nil
  show ?case by (simp add: lines_read_Nil)
next
  case (Cons l ls)
  show ?case
  proof (cases "stops loads l")
    case False
    with Cons show ?thesis
      by (simp add: lines_pass_step lines_read_pass del: stream_chat_lines.simps)
  next
    case True
    have "\<not> fails loads l"
    proof
      assume "fails loads l"
      from lines_fail_step [OF this] obtain e where
        "stream_chat_lines loads (l # ls) fin = \<lparr>yielded = [], raised = Some e, unread = ls\<rparr>" ..
      with Cons.prems show False by simp
    qed
    with True show ?thesis
      by (simp add: lines_done_step lines_read_stop del: stream_chat_lines.simps)
  qed
qed

lemma skipped_passes: "skipped loads l \<Longrightarrow> \<not> stops loads l"
  by (auto simp add: skipped_def stops_def split: sum.splits)

lemma skipped_fragment: "skipped loads l \<Longrightarrow> fragment loads l = []"
  by (auto simp add: skipped_def fragment_def split: sum.splits)

lemma lines_skip_step:
  "skipped loads l \<Longrightarrow> stream_chat_lines loads (l # rest) fin = stream_chat_lines loads rest fin"
  by (simp add: lines_pass_step skipped_passes skipped_fragment del: stream_chat_lines.simps)

lemma lines_skip_anywhere:
  assumes "skipped loads l"
  shows "yielded (stream_chat_lines loads (before @ l # after) fin) =
           yielded (stream_chat_lines loads (before @ after) fin) \<and>
         raised (stream_chat_lines loads (before @ l # after) fin) =
           raised (stream_chat_lines loads (before @ after) fin)"
proof (induction before)
  case Nil
  show ?case by (simp add: lines_skip_step [OF assms] del: stream_chat_lines.simps)
next
  case (Cons b before)
  show ?case
  proof (cases "stream_chat_line loads b")
    case (Inl e)
    then show ?thesis by simp
  next
    case (Inr p)
    with Cons show ?thesis
      by (cases p) (simp add: Let_def)
  qed
qed

section \<open>Joining fragments and collecting names\<close>

lemma join_strings: "join (map JStr ss) = Inr (concat ss)"
  by (induction ss) simp_all

lemma join_Inr: "join xs = Inr s \<Longrightarrow> \<exists>ss. xs = map JStr ss \<and> s = concat ss"
proof (induction xs arbitrary: s)
  case Nil
  then show ?case by simp
next
  case (Cons x xs)
  from Cons.prems obtain a where x: "x = JStr a"
    by (cases x) simp_all
  with Cons.prems obtain t where t: "join xs = Inr t" and s: "s = a @ t"
    by (auto split: sum.splits)
  from Cons.IH [OF t] obtain ss where "xs = map JStr ss" and "t = concat ss"
    by blast
  with x s have "x # xs = map JStr (a # ss) \<and> s = concat (a # ss)"
    by simp
  then show ?case by (rule exI [of _ "a # ss"])
qed

lemma accumulate_strings:
  "accumulate (map JStr ss) (map JStr done) = Inr (map JStr (done @ ss))"
proof (induction ss arbitrary: "done")
  case Nil
  show ?case by simp
next
  case (Cons s ss)
  have "join (map JStr done @ [JStr s]) = Inr (concat (done @ [s]))"
    using join_strings [of "done @ [s]"] by simp
  moreover have "accumulate (map JStr ss) (map JStr (done @ [s])) = Inr (map JStr ((done @ [s]) @ ss))"
    by (rule Cons.IH)
  ultimately show ?case by simp
qed

lemma accumulate_Inr:
  "accumulate xs acc = Inr acc' \<Longrightarrow> acc' = acc @ xs \<and> (xs = [] \<or> (\<exists>s. join (acc @ xs) = Inr s))"
proof (induction xs arbitrary: acc)
  case Nil
  then show ?case by simp
next
  case (Cons x xs)
  from Cons.prems obtain shown where j: "join (acc @ [x]) = Inr shown"
    and rest: "accumulate xs (acc @ [x]) = Inr acc'"
    by (auto split: sum.splits)
  from Cons.IH [OF rest] have a: "acc' = acc @ x # xs"
    and b: "xs = [] \<or> (\<exists>s. join (acc @ x # xs) = Inr s)"
    by simp_all
  from b j have "\<exists>s. join (acc @ x # xs) = Inr s"
    by auto
  with a show ?case by simp
qed

lemma accumulate_all:
  assumes "accumulate xs [] = Inr acc"
  shows "acc = xs \<and> (\<exists>ss. xs = map JStr ss \<and> join acc = Inr (concat ss))"
proof -
  from accumulate_Inr [OF assms] have acc: "acc = xs" and j: "xs = [] \<or> (\<exists>s. join xs = Inr s)"
    by simp_all
  from j obtain s where "join xs = Inr s"
    by auto
  from join_Inr [OF this] obtain ss where "xs = map JStr ss" and "s = concat ss"
    by blast
  with acc \<open>join xs = Inr s\<close> show ?thesis
    by auto
qed

lemma names_of_records:
  "list_all2 (\<lambda>m n. \<exists>kv. m = JObj kv \<and> map_of kv ''name'' = Some n) ms ns \<Longrightarrow> names ms = Inr ns"
  by (induction ms ns rule: list_all2_induct) auto

lemma names_missing:
  "\<exists>m\<in>set ms. \<not> has_name m \<Longrightarrow> \<exists>e. names ms = Inl e"
proof (induction ms)
  case Nil
  then show ?case by simp
next
  case (Cons m ms)
  show ?case
  proof (cases "has_name m")
    case False
    then have "\<exists>e. getitem m ''name'' = Inl e"
      by (cases m) (auto simp add: has_name_def)
    then show ?thesis by auto
  next
    case True
    with Cons.prems have "\<exists>m\<in>set ms. \<not> has_name m" by simp
    from Cons.IH [OF this] obtain e where "names ms = Inl e" ..
    then show ?thesis by (auto split: sum.splits)
  qed
qed

section \<open>The example service, evaluated\<close>

lemmas line_defs =
  line_hel_def line_lo_def line_nbsp_def line_space_def line_done_def line_error_def
  line_done_error_def line_status_def line_five_def line_number_content_def line_noise_def
  body_tags_def body_nameless_def body_version_def

lemma wire_short: "\<forall>k\<in>fst ` set wire. length k < 100"
  by (simp add: wire_def line_defs)

lemma line_deep_length: "length line_deep = 100000"
  by (simp add: line_deep_def)

lemma line_deep_not_wired: "map_of wire line_deep = None"
proof -
  have "line_deep \<notin> fst ` set wire"
  proof
    assume "line_deep \<in> fst ` set wire"
    with wire_short have "length line_deep < 100" by blast
    then show False by (simp add: line_deep_length)
  qed
  then show ?thesis by (simp add: map_of_eq_None_iff)
qed

lemma line_noise_not_deep: "line_noise \<noteq> line_deep"
proof
  assume "line_noise = line_deep"
  then have "length line_noise = length line_deep" by simp
  then show False by (simp add: line_deep_length line_noise_def)
qed

lemma decode_lines:
  "decode line_hel = Inr (JObj [(''message'', JObj [(''content'', JStr ''Hel'')])])"
  "decode line_lo = Inr (JObj [(''message'', JObj [(''content'', JStr ''lo'')])])"
  "decode line_nbsp = Inr (JObj [(''message'', JObj [(''content'', JStr (''lo'' @ [CHR 0xC2, CHR 0xA0]))])])"
  "decode line_space = Inr (JObj [(''message'', JObj [(''content'', JStr '' '')])])"
  "decode line_done = Inr (JObj [(''done'', JBool True)])"
  "decode line_error = Inr (JObj [(''error'', JStr ''rate limited'')])"
  "decode line_done_error = Inr (JObj [(''error'', JStr ''overloaded''), (''done'', JBool True)])"
  "decode line_status = Inr (JObj [(''status'', JStr ''loading'')])"
  "decode line_five = Inr (JInt 5)"
  "decode line_number_content = Inr (JObj [(''message'', JObj [(''content'', JInt 5)])])"
  by (simp_all add: decode_def wire_def line_defs)

lemma decode_rejects:
  "decode line_noise = Inl JSONDecodeError"
  "decode line_deep = Inl RecursionError"
proof -
  have "map_of wire line_noise = None"
    by (simp add: wire_def line_defs)
  then show "decode line_noise = Inl JSONDecodeError"
    by (simp add: decode_def line_noise_not_deep)
  show "decode line_deep = Inl RecursionError"
    by (simp add: decode_def line_deep_not_wired)
qed

lemma decode_bodies:
  "decode body_tags =
     Inr (JObj [(''models'',
                  JArr [JObj [(''name'', JStr ''qwen2.5'')],
                        JObj [(''name'', JStr ''llama3:8b'')],
                        JObj [(''name'', JStr ''qwen2.5'')]])])"
  "decode body_nameless =
     Inr (JObj [(''models'',
                  JArr [JObj [(''name'', JStr ''llama3:8b'')],
                        JObj [(''model'', JStr ''phi4'')]])])"
  "decode body_version = Inr (JObj [(''version'', JStr ''0.5.1'')])"
  by (simp_all add: decode_def wire_def line_defs)

lemma lines_not_blank:
  "line_hel \<noteq> []" "line_lo \<noteq> []" "line_nbsp \<noteq> []" "line_space \<noteq> []" "line_done \<noteq> []"
  "line_error \<noteq> []" "line_done_error \<noteq> []" "line_status \<noteq> []" "line_five \<noteq> []"
  "line_number_content \<noteq> []" "line_noise \<noteq> []"
  by (simp_all add: line_defs)

lemma line_deep_not_blank: "line_deep \<noteq> []"
proof
  assume "line_deep = []"
  then have "length line_deep = 0" by simp
  then show False by (simp add: line_deep_length)
qed

lemma local_chat_request:
  "chat_service ls (api_url (local_url @ ''/'') ''/api/chat'') hdrs data =
     Inr \<lparr>http_error = False, body = [], iter_lines = ls, broken = None\<rparr>"
  by (simp add: chat_service_def api_url_def rstrip_def local_url_def)

lemma local_chat_lines: "local_chat ls = stream_chat_lines decode ls None"
  by (simp add: local_chat_def stream_chat_def local_chat_request)

lemma dropped_chat_request:
  "dropped_chat_service ls (api_url (local_url @ ''/'') ''/api/chat'') hdrs data =
     Inr \<lparr>http_error = False, body = [], iter_lines = ls, broken = Some ConnectionError\<rparr>"
  by (simp add: dropped_chat_service_def api_url_def rstrip_def local_url_def)

lemma dropped_chat_lines: "dropped_chat ls = stream_chat_lines decode ls (Some ConnectionError)"
  by (simp add: dropped_chat_def stream_chat_def dropped_chat_request)

lemma local_tags_request:
  "tags_service b (api_url local_url ''/api/tags'') hdrs =
     Inr \<lparr>http_error = False, body = b, iter_lines = [], broken = None\<rparr>"
  by (simp add: tags_service_def api_url_def rstrip_def local_url_def)

lemma line_runs:
  "stream_chat_line decode line_hel = Inr ([JStr ''Hel''], False)"
  "stream_chat_line decode line_lo = Inr ([JStr ''lo''], False)"
  "stream_chat_line decode line_nbsp = Inr ([JStr (''lo'' @ [CHR 0xC2, CHR 0xA0])], False)"
  "stream_chat_line decode line_space = Inr ([JStr '' ''], False)"
  "stream_chat_line decode line_done = Inr ([], True)"
  "stream_chat_line decode line_error = Inl (RuntimeError (JStr ''rate limited''))"
  "stream_chat_line decode line_done_error = Inl (RuntimeError (JStr ''overloaded''))"
  "stream_chat_line decode line_status = Inr ([], False)"
  "stream_chat_line decode line_five = Inl TypeError"
  "stream_chat_line decode line_number_content = Inr ([JInt 5], False)"
  "stream_chat_line decode line_noise = Inr ([], False)"
  "stream_chat_line decode line_deep = Inl RecursionError"
  "stream_chat_line decode [] = Inr ([], False)"
  by (simp_all add: stream_chat_line_def decode_lines decode_rejects lines_not_blank
      line_deep_not_blank)

text \<open>The text that \<^verbatim>\<open>strip\<close> leaves, on ASCII and on other whitespace.\<close>

lemma strip_empty: "strip [] = []"
  by (simp add: strip_def)

lemma strip_values:
  "strip '' Hello'' = ''Hello''"
  "strip ('' Hello'' @ [CHR 0xC2, CHR 0xA0]) = ''Hello''"
  by (simp_all add: strip_def isspace_def whitespace_def)

lemma stream_chat_response:
  assumes "requests_post (api_url base_url ''/api/chat'') (auth_headers (Some api_key))
             (payload model msgs temperature) = Inr resp"
    and "\<not> http_error resp"
  shows "stream_chat requests_post loads base_url api_key model msgs temperature =
           stream_chat_lines loads (iter_lines resp) (broken resp)"
  using assms by (simp add: stream_chat_def)

lemma stream_chat_completed:
  assumes "requests_post (api_url base_url ''/api/chat'') (auth_headers (Some api_key))
             (payload model msgs temperature) = Inr resp"
    and "raised (stream_chat requests_post loads base_url api_key model msgs temperature) = None"
  shows "\<not> http_error resp"
  using assms by (auto simp add: stream_chat_def)

lemma fragment_values:
  "fragment decode line_hel = [JStr ''Hel'']"
  "fragment decode line_lo = [JStr ''lo'']"
  "fragment decode line_nbsp = [JStr (''lo'' @ [CHR 0xC2, CHR 0xA0])]"
  "fragment decode line_space = [JStr '' '']"
  "fragment decode line_done = []"
  "fragment decode line_status = []"
  "fragment decode line_noise = []"
  "fragment decode line_deep = []"
  "fragment decode [] = []"
  by (simp_all add: fragment_def message_content_def decode_lines decode_rejects lines_not_blank)

lemma stops_values:
  "\<not> stops decode line_hel" "\<not> stops decode line_lo" "\<not> stops decode line_space"
  "stops decode line_done" "stops decode line_error" "stops decode line_done_error"
  "\<not> stops decode line_status" "stops decode line_five" "\<not> stops decode line_number_content"
  "\<not> stops decode line_noise" "\<not> stops decode []" "\<not> stops decode line_nbsp"
  "stops decode line_deep"
  by (simp_all add: stops_def carries_error_def object_shaped_def done_marker_def
      decode_lines decode_rejects lines_not_blank line_deep_not_blank)

lemma fails_values:
  "\<not> fails decode line_done" "fails decode line_error" "fails decode line_done_error"
  "fails decode line_five" "fails decode line_deep" "\<not> fails decode line_noise"
  by (simp_all add: fails_def carries_error_def object_shaped_def decode_lines decode_rejects
      lines_not_blank line_deep_not_blank)

section \<open>Streaming: fragments, errors and the done marker\<close>

text \<open>
  C1. When \<^verbatim>\<open>stream_chat\<close> completes, the fragments it yielded are exactly the
  non-empty message contents of the lines it read (the lines up to and including the
  first one that stops the stream), one per line and in the order of the lines: none
  is reordered, repeated or lost. The accumulator the caller has filled by then holds
  those fragments item for item, and its join is their concatenation in that order.
\<close>

theorem stream_chat_fragments_in_order:
  assumes "requests_post (api_url base_url ''/api/chat'') (auth_headers (Some api_key))
             (payload model msgs temperature) = Inr resp"
    and "raised (stream_chat requests_post loads base_url api_key model msgs temperature) = None"
  shows "yielded (stream_chat requests_post loads base_url api_key model msgs temperature) =
           concat (map (fragment loads) (lines_read loads (iter_lines resp))) \<and>
         (\<forall>acc. accumulate
                  (yielded (stream_chat requests_post loads base_url api_key model msgs temperature))
                  [] = Inr acc \<longrightarrow>
            acc = yielded (stream_chat requests_post loads base_url api_key model msgs temperature) \<and>
            (\<exists>ss. acc = map JStr ss \<and> join acc = Inr (concat ss)))"
proof -
  let ?run = "stream_chat requests_post loads base_url api_key model msgs temperature"
  have run: "?run = stream_chat_lines loads (iter_lines resp) (broken resp)"
    using assms stream_chat_response stream_chat_completed by blast
  with assms(2) have "yielded ?run = concat (map (fragment loads) (lines_read loads (iter_lines resp)))"
    by (simp add: lines_yielded)
  moreover have "\<forall>acc. accumulate (yielded ?run) [] = Inr acc \<longrightarrow>
      acc = yielded ?run \<and> (\<exists>ss. acc = map JStr ss \<and> join acc = Inr (concat ss))"
    using accumulate_all by blast
  ultimately show ?thesis by blast
qed

theorem stream_chat_fragments_in_order_witness:
  "raised (local_chat [line_hel, line_noise, [], line_lo, line_done, line_hel]) = None \<and>
   lines_read decode [line_hel, line_noise, [], line_lo, line_done, line_hel] =
     [line_hel, line_noise, [], line_lo, line_done] \<and>
   yielded (local_chat [line_hel, line_noise, [], line_lo, line_done, line_hel]) =
     [JStr ''Hel'', JStr ''lo''] \<and>
   accumulate [JStr ''Hel'', JStr ''lo''] [] = Inr [JStr ''Hel'', JStr ''lo''] \<and>
   join [JStr ''Hel'', JStr ''lo''] = Inr ''Hello''"
proof -
  let ?ls = "[line_hel, line_noise, [], line_lo, line_done, line_hel]"
  have post: "chat_service ?ls (api_url (local_url @ ''/'') ''/api/chat'') (auth_headers (Some []))
      (payload ''llama3'' transcript (1 / 5)) =
      Inr \<lparr>http_error = False, body = [], iter_lines = ?ls, broken = None\<rparr>"
    by (rule local_chat_request)
  have completes: "raised (stream_chat (chat_service ?ls) decode (local_url @ ''/'') [] ''llama3''
      transcript (1 / 5)) = None"
    by (simp add: local_chat_lines [unfolded local_chat_def] line_runs)
  have "lines_read decode ?ls = [line_hel, line_noise, [], line_lo, line_done]"
    by (simp add: lines_read_def stops_values)
  with stream_chat_fragments_in_order [OF post completes] completes show ?thesis
    by (simp add: local_chat_def fragment_values)
qed

text \<open>
  C2. When a line that \<^verbatim>\<open>stream_chat\<close> reads and decodes carries an \<^verbatim>\<open>error\<close> field,
  the stream raises a \<^verbatim>\<open>RuntimeError\<close> that carries the value of that field, the
  lines after it are never read, and the fragments yielded are those of the lines
  before it, the same as if the stream had ended there.
\<close>

theorem error_line_aborts_stream:
  assumes "requests_post (api_url base_url ''/api/chat'') (auth_headers (Some api_key))
             (payload model msgs temperature) = Inr resp"
    and "\<not> http_error resp"
    and "iter_lines resp = before @ line # after"
    and "\<forall>l\<in>set before. \<not> stops loads l"
    and "line \<noteq> []"
    and "loads line = Inr (JObj kvs)"
    and "map_of kvs ''error'' = Some v"
  shows "stream_chat requests_post loads base_url api_key model msgs temperature =
           \<lparr>yielded = yielded (stream_chat_lines loads before None),
            raised = Some (RuntimeError v),
            unread = after\<rparr>"
proof -
  have "stream_chat_lines loads (line # after) (broken resp) =
      \<lparr>yielded = [], raised = Some (RuntimeError v), unread = after\<rparr>"
    using assms(5-7) by (simp add: line_error)
  moreover have "yielded (stream_chat_lines loads before None) = concat (map (fragment loads) before)"
    using lines_pass_prefix [OF assms(4), of "[]" None] by simp
  ultimately have "stream_chat_lines loads (before @ line # after) (broken resp) =
      \<lparr>yielded = yielded (stream_chat_lines loads before None), raised = Some (RuntimeError v),
       unread = after\<rparr>"
    using lines_pass_prefix [OF assms(4), of "line # after" "broken resp"] by simp
  with assms(1-3) show ?thesis
    by (simp add: stream_chat_response)
qed

theorem error_line_aborts_stream_witness:
  "local_chat [line_hel, line_error, line_lo, line_done] =
     \<lparr>yielded = [JStr ''Hel''], raised = Some (RuntimeError (JStr ''rate limited'')),
      unread = [line_lo, line_done]\<rparr> \<and>
   yielded (stream_chat_lines decode [line_hel] None) = [JStr ''Hel'']"
proof -
  have post: "chat_service [line_hel, line_error, line_lo, line_done]
      (api_url (local_url @ ''/'') ''/api/chat'') (auth_headers (Some []))
      (payload ''llama3'' transcript (1 / 5)) =
      Inr \<lparr>http_error = False, body = [], iter_lines = [line_hel, line_error, line_lo, line_done],
           broken = None\<rparr>"
    by (rule local_chat_request)
  have y: "yielded (stream_chat_lines decode [line_hel] None) = [JStr ''Hel'']"
    by (simp add: line_runs)
  from error_line_aborts_stream [where requests_post = "chat_service [line_hel, line_error, line_lo, line_done]"
      and base_url = "local_url @ ''/''" and api_key = "[]" and model = "''llama3''"
      and msgs = transcript and temperature = "1 / 5" and loads = decode
      and before = "[line_hel]" and line = line_error and after = "[line_lo, line_done]"
      and kvs = "[(''error'', JStr ''rate limited'')]" and v = "JStr ''rate limited''", OF post] y
  show ?thesis
    by (simp add: local_chat_def stops_values decode_lines lines_not_blank)
qed

section \<open>The transcript after a reply\<close>

text \<open>
  C3. When \<^verbatim>\<open>stream_chat\<close> raises, at the opening of the stream or in the middle of
  it, the caller appends no assistant message: the transcript is what it was when the
  stream started, whatever had been accumulated, and the failure is reported.
\<close>

theorem failed_stream_appends_nothing:
  assumes "raised (stream_chat requests_post loads base_url api_key model msgs temperature) = Some e"
  shows "messages (assistant_reply
           (stream_chat requests_post loads base_url api_key model msgs temperature) msgs) = msgs \<and>
         failed (assistant_reply
           (stream_chat requests_post loads base_url api_key model msgs temperature) msgs) \<noteq> None"
  using assms by (simp add: assistant_reply_def split: sum.splits)

theorem failed_stream_appends_nothing_witness:
  "raised (local_chat [line_hel, line_lo, line_error]) = Some (RuntimeError (JStr ''rate limited'')) \<and>
   yielded (local_chat [line_hel, line_lo, line_error]) = [JStr ''Hel'', JStr ''lo''] \<and>
   messages (assistant_reply (local_chat [line_hel, line_lo, line_error]) transcript) = transcript \<and>
   raised (stream_chat (hosted_chat_service [line_hel, line_done]) decode ''https://ollama.com'' []
     ''llama3'' transcript (1 / 5)) = Some HTTPError \<and>
   messages (assistant_reply
     (stream_chat (hosted_chat_service [line_hel, line_done]) decode ''https://ollama.com'' []
        ''llama3'' transcript (1 / 5)) transcript) = transcript \<and>
   dropped_chat [line_hel, line_lo] =
     \<lparr>yielded = [JStr ''Hel'', JStr ''lo''], raised = Some ConnectionError, unread = []\<rparr> \<and>
   messages (assistant_reply (dropped_chat [line_hel, line_lo]) transcript) = transcript"
proof -
  have run: "local_chat [line_hel, line_lo, line_error] =
      \<lparr>yielded = [JStr ''Hel'', JStr ''lo''], raised = Some (RuntimeError (JStr ''rate limited'')),
       unread = []\<rparr>"
    by (simp add: local_chat_lines line_runs)
  have hosted: "raised (stream_chat (hosted_chat_service [line_hel, line_done]) decode
      ''https://ollama.com'' [] ''llama3'' transcript (1 / 5)) = Some HTTPError"
    by (simp add: stream_chat_def hosted_chat_service_def auth_headers_def)
  have dropped: "dropped_chat [line_hel, line_lo] =
      \<lparr>yielded = [JStr ''Hel'', JStr ''lo''], raised = Some ConnectionError, unread = []\<rparr>"
    by (simp add: dropped_chat_lines line_runs)
  then have cut: "raised (stream_chat (dropped_chat_service [line_hel, line_lo]) decode
      (local_url @ ''/'') [] ''llama3'' transcript (1 / 5)) = Some ConnectionError"
    by (simp add: dropped_chat_def)
  from run have "raised (stream_chat (chat_service [line_hel, line_lo, line_error]) decode
      (local_url @ ''/'') [] ''llama3'' transcript (1 / 5)) = Some (RuntimeError (JStr ''rate limited''))"
    by (simp add: local_chat_def)
  from failed_stream_appends_nothing [OF this] failed_stream_appends_nothing [OF hosted]
    failed_stream_appends_nothing [OF cut] run hosted dropped
  show ?thesis
    by (simp add: local_chat_def dropped_chat_def)
qed

lemma lines_stop_step:
  assumes "stops loads l"
  shows "stream_chat_lines loads (l # rest) fin = (stream_chat_lines loads [l] fin')\<lparr>unread := rest\<rparr>"
proof (cases "fails loads l")
  case True
  from line_fails [OF this] obtain e where "stream_chat_line loads l = Inl e" ..
  then show ?thesis by simp
next
  case False
  with assms show ?thesis
    by (simp add: lines_done_step del: stream_chat_lines.simps)
qed

lemma lines_stop_after_prefix:
  assumes "\<forall>l\<in>set before. \<not> stops loads l" and "stops loads line"
  shows "stream_chat_lines loads (before @ line # after) fin =
           (stream_chat_lines loads (before @ [line]) fin')\<lparr>unread := after\<rparr>"
proof -
  have "stream_chat_lines loads (line # after) fin =
      (stream_chat_lines loads [line] fin')\<lparr>unread := after\<rparr>"
    by (rule lines_stop_step [OF assms(2)])
  then show ?thesis
    using lines_pass_prefix [OF assms(1), of "line # after" fin]
      lines_pass_prefix [OF assms(1), of "[line]" fin']
    by simp
qed

text \<open>
  C5, as the code has it. \<^verbatim>\<open>stream_chat\<close>, driven to its end, raises exactly when
  the request gets no response; or the status of the response is an error (then
  nothing has been yielded); or one of the lines it reads fails: the decoder raises
  on it something other than its decode error, or the line decodes to a value that
  carries an \<^verbatim>\<open>error\<close> field, or to a value that is not a JSON object whose
  \<^verbatim>\<open>message\<close>, if it has one, is a JSON object; or the line iterator itself fails
  (the connection drops) when no line has ended the stream before. A line that is
  blank, that the decoder rejects with its decode error, or that decodes to a JSON
  object with no \<^verbatim>\<open>error\<close> field, no message content and no \<^verbatim>\<open>done\<close> marker is
  skipped: the stream yields and ends as it would without that line.
\<close>

theorem stream_chat_failure_iff:
  "(raised (stream_chat requests_post loads base_url api_key model msgs temperature) \<noteq> None \<longleftrightarrow>
      (case requests_post (api_url base_url ''/api/chat'') (auth_headers (Some api_key))
              (payload model msgs temperature) of
         Inl e \<Rightarrow> True
       | Inr resp \<Rightarrow>
           http_error resp \<or>
           (\<exists>l\<in>set (lines_read loads (iter_lines resp)). fails loads l) \<or>
           (broken resp \<noteq> None \<and> (\<forall>l\<in>set (iter_lines resp). \<not> stops loads l)))) \<and>
   (\<forall>resp. requests_post (api_url base_url ''/api/chat'') (auth_headers (Some api_key))
              (payload model msgs temperature) = Inr resp \<and> http_error resp \<longrightarrow>
      yielded (stream_chat requests_post loads base_url api_key model msgs temperature) = []) \<and>
   (\<forall>before line after fin. skipped loads line \<longrightarrow>
      yielded (stream_chat_lines loads (before @ line # after) fin) =
        yielded (stream_chat_lines loads (before @ after) fin) \<and>
      raised (stream_chat_lines loads (before @ line # after) fin) =
        raised (stream_chat_lines loads (before @ after) fin))"
proof (intro conjI)
  show "raised (stream_chat requests_post loads base_url api_key model msgs temperature) \<noteq> None \<longleftrightarrow>
      (case requests_post (api_url base_url ''/api/chat'') (auth_headers (Some api_key))
              (payload model msgs temperature) of
         Inl e \<Rightarrow> True
       | Inr resp \<Rightarrow>
           http_error resp \<or>
           (\<exists>l\<in>set (lines_read loads (iter_lines resp)). fails loads l) \<or>
           (broken resp \<noteq> None \<and> (\<forall>l\<in>set (iter_lines resp). \<not> stops loads l)))"
  proof (cases "requests_post (api_url base_url ''/api/chat'') (auth_headers (Some api_key))
              (payload model msgs temperature)")
    case (Inl e)
    then show ?thesis by (simp add: stream_chat_def)
  next
    case (Inr resp)
    show ?thesis
    proof (cases "http_error resp")
      case True
      with Inr show ?thesis by (simp add: stream_chat_def)
    next
      case False
      with Inr lines_raised_iff [of loads "iter_lines resp" "broken resp"] show ?thesis
        by (simp add: stream_chat_def del: stream_chat_lines.simps)
    qed
  qed
next
  show "\<forall>resp. requests_post (api_url base_url ''/api/chat'') (auth_headers (Some api_key))
              (payload model msgs temperature) = Inr resp \<and> http_error resp \<longrightarrow>
      yielded (stream_chat requests_post loads base_url api_key model msgs temperature) = []"
    by (simp add: stream_chat_def)
next
  show "\<forall>before line after fin. skipped loads line \<longrightarrow>
      yielded (stream_chat_lines loads (before @ line # after) fin) =
        yielded (stream_chat_lines loads (before @ after) fin) \<and>
      raised (stream_chat_lines loads (before @ line # after) fin) =
        raised (stream_chat_lines loads (before @ after) fin)"
    using lines_skip_anywhere by blast
qed

lemma skipped_values:
  "skipped decode line_noise" "skipped decode line_status" "skipped decode []"
  by (simp_all add: skipped_def carries_error_def object_shaped_def done_marker_def
      message_content_def decode_lines decode_rejects lines_not_blank)

theorem stream_chat_failure_iff_witness:
  "skipped decode line_status \<and>
   yielded (stream_chat_lines decode [line_hel, line_status, line_lo, line_done] None) =
     yielded (stream_chat_lines decode [line_hel, line_lo, line_done] None) \<and>
   raised (stream_chat_lines decode [line_hel, line_status, line_lo, line_done] None) =
     raised (stream_chat_lines decode [line_hel, line_lo, line_done] None) \<and>
   lines_read decode [line_hel, line_noise, line_error, line_lo] = [line_hel, line_noise, line_error] \<and>
   fails decode line_error \<and>
   raised (local_chat [line_hel, line_noise, line_error, line_lo]) \<noteq> None \<and>
   fails decode line_deep \<and>
   raised (local_chat [line_hel, line_deep, line_lo]) \<noteq> None \<and>
   raised (local_chat [line_hel, line_noise, [], line_status, line_lo]) = None \<and>
   raised (dropped_chat [line_hel, line_noise, [], line_status, line_lo]) \<noteq> None \<and>
   raised (dropped_chat [line_hel, line_done, line_lo]) = None \<and>
   yielded (stream_chat (hosted_chat_service [line_hel, line_done]) decode ''https://ollama.com'' []
     ''llama3'' transcript (1 / 5)) = []"
proof -
  note inst = stream_chat_failure_iff [where loads = decode and base_url = "local_url @ ''/''"
      and api_key = "[]" and model = "''llama3''" and msgs = transcript and temperature = "1 / 5"]
  have skip: "yielded (stream_chat_lines decode ([line_hel] @ line_status # [line_lo, line_done]) None) =
      yielded (stream_chat_lines decode ([line_hel] @ [line_lo, line_done]) None) \<and>
    raised (stream_chat_lines decode ([line_hel] @ line_status # [line_lo, line_done]) None) =
      raised (stream_chat_lines decode ([line_hel] @ [line_lo, line_done]) None)"
    using inst [where requests_post = "chat_service []"] skipped_values(2) by blast
  have read: "lines_read decode [line_hel, line_noise, line_error, line_lo] =
      [line_hel, line_noise, line_error]"
    by (simp add: lines_read_def stops_values)
  have read': "lines_read decode [line_hel, line_noise, [], line_status, line_lo] =
      [line_hel, line_noise, [], line_status, line_lo]"
    by (simp add: lines_read_def stops_values)
  have read_deep: "lines_read decode [line_hel, line_deep, line_lo] = [line_hel, line_deep]"
    by (simp add: lines_read_def stops_values)
  have read_done: "lines_read decode [line_hel, line_done, line_lo] = [line_hel, line_done]"
    by (simp add: lines_read_def stops_values)
  have quiet: "\<not> fails decode line_hel" "\<not> fails decode line_noise" "\<not> fails decode []"
    "\<not> fails decode line_status" "\<not> fails decode line_lo"
    using fails_stops stops_values by blast+
  have bad: "raised (local_chat [line_hel, line_noise, line_error, line_lo]) \<noteq> None"
    using inst [where requests_post = "chat_service [line_hel, line_noise, line_error, line_lo]"]
    by (simp add: local_chat_def local_chat_request read fails_values)
  have deep: "raised (local_chat [line_hel, line_deep, line_lo]) \<noteq> None"
    using inst [where requests_post = "chat_service [line_hel, line_deep, line_lo]"]
    by (simp add: local_chat_def local_chat_request read_deep fails_values)
  have good: "raised (local_chat [line_hel, line_noise, [], line_status, line_lo]) = None"
    using inst [where requests_post = "chat_service [line_hel, line_noise, [], line_status, line_lo]"]
    by (simp add: local_chat_def local_chat_request read' quiet)
  have cut: "raised (dropped_chat [line_hel, line_noise, [], line_status, line_lo]) \<noteq> None"
    using inst [where requests_post =
        "dropped_chat_service [line_hel, line_noise, [], line_status, line_lo]"]
    by (simp add: dropped_chat_def dropped_chat_request stops_values)
  have late: "raised (dropped_chat [line_hel, line_done, line_lo]) = None"
    using inst [where requests_post = "dropped_chat_service [line_hel, line_done, line_lo]"]
    by (simp add: dropped_chat_def dropped_chat_request read_done quiet fails_values stops_values)
  have closed: "yielded (stream_chat (hosted_chat_service [line_hel, line_done]) decode
      ''https://ollama.com'' [] ''llama3'' transcript (1 / 5)) = []"
    using stream_chat_failure_iff [where requests_post = "hosted_chat_service [line_hel, line_done]"
        and loads = decode and base_url = "''https://ollama.com''" and api_key = "[]"
        and model = "''llama3''" and msgs = transcript and temperature = "1 / 5"]
    by (simp add: hosted_chat_service_def auth_headers_def)
  from skip read bad deep good cut late closed show ?thesis
    by (simp add: skipped_values fails_values)
qed

text \<open>
  The line \<^verbatim>\<open>5\<close> is valid JSON of no recognised shape, and it is not skipped: the
  membership test on a number raises \<^verbatim>\<open>TypeError\<close> and the stream ends there, with a
  successful status and no \<^verbatim>\<open>error\<close> field anywhere.
\<close>

theorem unrecognized_line_counterexample:
  "decode line_five = Inr (JInt 5) \<and>
   local_chat [line_hel, line_five, line_lo] =
     \<lparr>yielded = [JStr ''Hel''], raised = Some TypeError, unread = [line_lo]\<rparr>"
  by (simp add: local_chat_lines line_runs decode_lines)

text \<open>
  So do a line on which the decoder raises something other than its decode error,
  and a connection that drops in the middle of the body.
\<close>

lemma undecodable_line_not_skipped:
  "local_chat [line_hel, line_deep, line_lo] =
     \<lparr>yielded = [JStr ''Hel''], raised = Some RecursionError, unread = [line_lo]\<rparr>"
  by (simp add: local_chat_lines line_runs)

lemma dropped_connection_raises:
  "dropped_chat [line_hel, line_lo] =
     \<lparr>yielded = [JStr ''Hel'', JStr ''lo''], raised = Some ConnectionError, unread = []\<rparr>"
  by (simp add: dropped_chat_lines line_runs)

text \<open>
  C6, as the code has it. When a line that \<^verbatim>\<open>stream_chat\<close> reads decodes to a value
  with a \<^verbatim>\<open>done\<close> marker, no line after it is read and none contributes a fragment:
  the run is the run of the stream that ends after that line, with the later lines
  left unread, however the line iterator would have ended. It ends without an exception exactly when that line carries no
  \<^verbatim>\<open>error\<close> field and its \<^verbatim>\<open>message\<close>, if it has one, is a JSON object.
\<close>

theorem done_line_stops_reading:
  assumes "requests_post (api_url base_url ''/api/chat'') (auth_headers (Some api_key))
             (payload model msgs temperature) = Inr resp"
    and "\<not> http_error resp"
    and "iter_lines resp = before @ line # after"
    and "\<forall>l\<in>set before. \<not> stops loads l"
    and "line \<noteq> []"
    and "loads line = Inr obj"
    and "done_marker obj"
  shows "stream_chat requests_post loads base_url api_key model msgs temperature =
           (stream_chat_lines loads (before @ [line]) None)\<lparr>unread := after\<rparr> \<and>
         (raised (stream_chat requests_post loads base_url api_key model msgs temperature) = None
            \<longleftrightarrow> \<not> carries_error obj \<and> object_shaped obj)"
proof -
  let ?run = "stream_chat requests_post loads base_url api_key model msgs temperature"
  from assms(5-7) have stop: "stops loads line"
    by (simp add: stops_def)
  from assms(1-3) have run: "?run = stream_chat_lines loads (before @ line # after) (broken resp)"
    by (simp add: stream_chat_response)
  also have "\<dots> = (stream_chat_lines loads (before @ [line]) None)\<lparr>unread := after\<rparr>"
    by (rule lines_stop_after_prefix [OF assms(4) stop])
  finally have first: "?run = (stream_chat_lines loads (before @ [line]) None)\<lparr>unread := after\<rparr>" .
  have "lines_read loads (before @ line # after) = before @ [line]"
    using assms(4) stop by (simp add: lines_read_def takeWhile_append2 dropWhile_append2)
  moreover have "\<forall>l\<in>set before. \<not> fails loads l"
    using assms(4) fails_stops by blast
  ultimately have "raised (stream_chat_lines loads (before @ line # after) (broken resp)) \<noteq> None
      \<longleftrightarrow> fails loads line"
    using lines_raised_iff [of loads "before @ line # after" "broken resp"] stop by auto
  moreover have "fails loads line \<longleftrightarrow> carries_error obj \<or> \<not> object_shaped obj"
    using assms(5,6) by (simp add: fails_def)
  ultimately have "raised ?run = None \<longleftrightarrow> \<not> carries_error obj \<and> object_shaped obj"
    using run by auto
  with first show ?thesis by blast
qed

theorem done_line_stops_reading_witness:
  "local_chat [line_hel, line_done, line_lo] =
     (stream_chat_lines decode [line_hel, line_done] None)\<lparr>unread := [line_lo]\<rparr> \<and>
   local_chat [line_hel, line_done, line_lo] =
     \<lparr>yielded = [JStr ''Hel''], raised = None, unread = [line_lo]\<rparr>"
proof -
  have post: "chat_service [line_hel, line_done, line_lo]
      (api_url (local_url @ ''/'') ''/api/chat'') (auth_headers (Some []))
      (payload ''llama3'' transcript (1 / 5)) =
      Inr \<lparr>http_error = False, body = [], iter_lines = [line_hel, line_done, line_lo],
           broken = None\<rparr>"
    by (rule local_chat_request)
  have "done_marker (JObj [(''done'', JBool True)])"
    by (simp add: done_marker_def)
  with done_line_stops_reading [where requests_post = "chat_service [line_hel, line_done, line_lo]"
      and base_url = "local_url @ ''/''" and api_key = "[]" and model = "''llama3''"
      and msgs = transcript and temperature = "1 / 5" and loads = decode
      and before = "[line_hel]" and line = line_done and after = "[line_lo]"
      and obj = "JObj [(''done'', JBool True)]", OF post]
  show ?thesis
    by (simp add: local_chat_def stops_values decode_lines lines_not_blank line_runs)
qed

text \<open>
  A line with both a \<^verbatim>\<open>done\<close> marker and an \<^verbatim>\<open>error\<close> field ends the stream by the
  exception, not by a normal return: the error test comes first in the loop.
\<close>

theorem done_line_with_error_counterexample:
  "decode line_done_error = Inr (JObj [(''error'', JStr ''overloaded''), (''done'', JBool True)]) \<and>
   done_marker (JObj [(''error'', JStr ''overloaded''), (''done'', JBool True)]) \<and>
   local_chat [line_hel, line_done_error, line_lo] =
     \<lparr>yielded = [JStr ''Hel''], raised = Some (RuntimeError (JStr ''overloaded'')),
      unread = [line_lo]\<rparr>"
  by (simp add: local_chat_lines line_runs decode_lines done_marker_def)

section \<open>Model catalog: names and fallback\<close>

lemma list_models_try_records:
  assumes "requests_get (api_url base_url ''/api/tags'') (auth_headers (Some api_key)) = Inr resp"
    and "\<not> http_error resp"
    and "loads (body resp) = Inr (JObj kvs)"
    and "map_of kvs ''models'' = Some (JArr ms)"
  shows "list_models_try requests_get loads base_url api_key = names ms"
  using assms by (simp add: list_models_try_def)

lemma list_models_try_no_models:
  assumes "requests_get (api_url base_url ''/api/tags'') (auth_headers (Some api_key)) = Inr resp"
    and "\<not> http_error resp"
    and "loads (body resp) = Inr (JObj kvs)"
    and "map_of kvs ''models'' = None"
  shows "list_models_try requests_get loads base_url api_key = Inr []"
  using assms by (simp add: list_models_try_def)

lemma fetch_failure_raises:
  assumes "fetch_failure (requests_get (api_url base_url ''/api/tags'') (auth_headers (Some api_key))) loads"
  shows "\<exists>e. list_models_try requests_get loads base_url api_key = Inl e"
proof (cases "requests_get (api_url base_url ''/api/tags'') (auth_headers (Some api_key))")
  case (Inl e)
  then show ?thesis by (simp add: list_models_try_def)
next
  case (Inr resp)
  show ?thesis
  proof (cases "http_error resp")
    case True
    with Inr show ?thesis by (simp add: list_models_try_def)
  next
    case False
    show ?thesis
    proof (cases "loads (body resp)")
      case (Inl e)
      with Inr False show ?thesis by (simp add: list_models_try_def)
    next
      case decoded: (Inr data)
      with assms Inr False obtain kvs ms where data: "data = JObj kvs"
        and ms: "map_of kvs ''models'' = Some (JArr ms)"
        and bad: "\<exists>m\<in>set ms. \<not> has_name m"
        by (auto simp add: fetch_failure_def list_ex_iff split: json.splits option.splits)
      from names_missing [OF bad] obtain e where "names ms = Inl e" ..
      with Inr False decoded data ms show ?thesis
        by (simp add: list_models_try_records)
    qed
  qed
qed

text \<open>
  C4, as the code has it. When the fetch fails in one of the ways the specification
  lists (the request itself fails, the status is an error, the body is not JSON so
  that its decoder raises, a record of the \<^verbatim>\<open>models\<close> list has no \<^verbatim>\<open>name\<close> field),
  \<^verbatim>\<open>list_models\<close> does not raise:
  it reports the exception as a warning and returns the fixed default list, which is
  not empty. A response that is a JSON object with no \<^verbatim>\<open>models\<close> field is not such a
  failure: \<^verbatim>\<open>list_models\<close> returns the empty list and reports no warning.
\<close>

theorem list_models_failure_defaults:
  "(fetch_failure (requests_get (api_url base_url ''/api/tags'') (auth_headers (Some api_key))) loads
      \<longrightarrow> (\<exists>e. list_models requests_get loads base_url api_key =
                  \<lparr>warning = Some e, models = default_models\<rparr>) \<and>
          default_models \<noteq> []) \<and>
   (\<forall>resp kvs.
      requests_get (api_url base_url ''/api/tags'') (auth_headers (Some api_key)) = Inr resp \<and>
      \<not> http_error resp \<and> loads (body resp) = Inr (JObj kvs) \<and> map_of kvs ''models'' = None
      \<longrightarrow> list_models requests_get loads base_url api_key = \<lparr>warning = None, models = []\<rparr>)"
proof (intro conjI impI allI)
  assume "fetch_failure (requests_get (api_url base_url ''/api/tags'') (auth_headers (Some api_key))) loads"
  from fetch_failure_raises [where requests_get = requests_get and base_url = base_url
      and api_key = api_key and loads = loads, OF this] obtain e
    where "list_models_try requests_get loads base_url api_key = Inl e" ..
  then have "list_models requests_get loads base_url api_key =
      \<lparr>warning = Some e, models = default_models\<rparr>"
    by (simp add: list_models_def)
  then show "\<exists>e. list_models requests_get loads base_url api_key =
      \<lparr>warning = Some e, models = default_models\<rparr>" ..
next
  show "default_models \<noteq> []"
    by (simp add: default_models_def)
next
  fix resp kvs
  assume "requests_get (api_url base_url ''/api/tags'') (auth_headers (Some api_key)) = Inr resp \<and>
      \<not> http_error resp \<and> loads (body resp) = Inr (JObj kvs) \<and> map_of kvs ''models'' = None"
  then have "list_models_try requests_get loads base_url api_key = Inr []"
    by (simp add: list_models_try_no_models)
  then show "list_models requests_get loads base_url api_key = \<lparr>warning = None, models = []\<rparr>"
    by (simp add: list_models_def)
qed

lemma catalog_runs:
  "list_models (tags_service body_tags) decode ''http://localhost:9999'' [] =
     \<lparr>warning = Some ConnectionError, models = default_models\<rparr>"
  "list_models (hosted_tags_service body_tags) decode ''https://ollama.com'' [] =
     \<lparr>warning = Some HTTPError, models = default_models\<rparr>"
  "list_models (tags_service line_noise) decode local_url [] =
     \<lparr>warning = Some JSONDecodeError, models = default_models\<rparr>"
  "list_models (tags_service body_nameless) decode local_url [] =
     \<lparr>warning = Some KeyError, models = default_models\<rparr>"
  "list_models (tags_service body_version) decode local_url [] = \<lparr>warning = None, models = []\<rparr>"
  "list_models (tags_service body_tags) decode local_url [] =
     \<lparr>warning = None, models = [JStr ''qwen2.5'', JStr ''llama3:8b'', JStr ''qwen2.5'']\<rparr>"
  by (simp_all add: list_models_def list_models_try_def local_tags_request decode_bodies
      decode_lines decode_rejects tags_service_def hosted_tags_service_def api_url_def rstrip_def
      auth_headers_def local_url_def)

theorem list_models_failure_defaults_witness:
  "fetch_failure (tags_service body_tags (api_url ''http://localhost:9999'' ''/api/tags'')
      (auth_headers (Some []))) decode \<and>
   fetch_failure (hosted_tags_service body_tags (api_url ''https://ollama.com'' ''/api/tags'')
      (auth_headers (Some []))) decode \<and>
   fetch_failure (tags_service line_noise (api_url local_url ''/api/tags'')
      (auth_headers (Some []))) decode \<and>
   fetch_failure (tags_service body_nameless (api_url local_url ''/api/tags'')
      (auth_headers (Some []))) decode \<and>
   models (list_models (tags_service body_tags) decode ''http://localhost:9999'' []) = default_models \<and>
   models (list_models (hosted_tags_service body_tags) decode ''https://ollama.com'' []) = default_models \<and>
   models (list_models (tags_service line_noise) decode local_url []) = default_models \<and>
   list_models (tags_service body_nameless) decode local_url [] =
     \<lparr>warning = Some KeyError, models = default_models\<rparr> \<and>
   list_models (tags_service body_version) decode local_url [] = \<lparr>warning = None, models = []\<rparr>"
proof -
  have f1: "fetch_failure (tags_service body_tags (api_url ''http://localhost:9999'' ''/api/tags'')
      (auth_headers (Some []))) decode"
    by (simp add: fetch_failure_def tags_service_def api_url_def rstrip_def)
  have f2: "fetch_failure (hosted_tags_service body_tags (api_url ''https://ollama.com'' ''/api/tags'')
      (auth_headers (Some []))) decode"
    by (simp add: fetch_failure_def hosted_tags_service_def auth_headers_def)
  have f3: "fetch_failure (tags_service line_noise (api_url local_url ''/api/tags'')
      (auth_headers (Some []))) decode"
    by (simp add: fetch_failure_def local_tags_request decode_rejects)
  have f4: "fetch_failure (tags_service body_nameless (api_url local_url ''/api/tags'')
      (auth_headers (Some []))) decode"
    by (simp add: fetch_failure_def local_tags_request decode_bodies has_name_def)
  have none: "tags_service body_version (api_url local_url ''/api/tags'') (auth_headers (Some [])) =
      Inr \<lparr>http_error = False, body = body_version, iter_lines = [], broken = None\<rparr> \<and>
    \<not> http_error \<lparr>http_error = False, body = body_version, iter_lines = [], broken = None\<rparr> \<and>
    decode (body \<lparr>http_error = False, body = body_version, iter_lines = [], broken = None\<rparr>) =
      Inr (JObj [(''version'', JStr ''0.5.1'')]) \<and>
    map_of [(''version'', JStr ''0.5.1'')] ''models'' = None"
    by (simp add: local_tags_request decode_bodies)
  note inst = list_models_failure_defaults [where loads = decode and api_key = "[]"]
  from inst [where requests_get = "tags_service body_tags" and base_url = "''http://localhost:9999''"] f1
  have m1: "models (list_models (tags_service body_tags) decode ''http://localhost:9999'' []) =
      default_models"
    by auto
  from inst [where requests_get = "hosted_tags_service body_tags" and base_url = "''https://ollama.com''"] f2
  have m2: "models (list_models (hosted_tags_service body_tags) decode ''https://ollama.com'' []) =
      default_models"
    by auto
  from inst [where requests_get = "tags_service line_noise" and base_url = local_url] f3
  have m3: "models (list_models (tags_service line_noise) decode local_url []) = default_models"
    by auto
  from inst [where requests_get = "tags_service body_nameless" and base_url = local_url] f4
  have m4: "\<exists>e. list_models (tags_service body_nameless) decode local_url [] =
      \<lparr>warning = Some e, models = default_models\<rparr>"
    by blast
  from inst [where requests_get = "tags_service body_version" and base_url = local_url] none
  have m5: "list_models (tags_service body_version) decode local_url [] = \<lparr>warning = None, models = []\<rparr>"
    by blast
  from f1 f2 f3 f4 m1 m2 m3 m4 m5 show ?thesis
    by (simp add: catalog_runs(4))
qed

text \<open>
  The response \<^verbatim>\<open>{"version":"0.5.1"}\<close> is a JSON object with no \<^verbatim>\<open>models\<close> field:
  \<^verbatim>\<open>data.get("models", [])\<close> supplies the empty list, nothing raises, and the result
  is the empty list with no warning, not the defaults.
\<close>

theorem list_models_no_models_field_counterexample:
  "decode body_version = Inr (JObj [(''version'', JStr ''0.5.1'')]) \<and>
   list_models (tags_service body_version) decode local_url [] = \<lparr>warning = None, models = []\<rparr> \<and>
   default_models \<noteq> []"
  by (simp add: catalog_runs(5) decode_bodies default_models_def)

text \<open>
  C7. For a well-formed catalog response (the request is answered without an error
  status by a JSON object whose \<^verbatim>\<open>models\<close> field is a list of records, each with a
  \<^verbatim>\<open>name\<close> field), \<^verbatim>\<open>list_models\<close> returns the \<^verbatim>\<open>name\<close> values of the records, one per
  record and in the order of the records, and reports no warning.
\<close>

theorem list_models_names_in_order:
  assumes "requests_get (api_url base_url ''/api/tags'') (auth_headers (Some api_key)) = Inr resp"
    and "\<not> http_error resp"
    and "loads (body resp) = Inr (JObj kvs)"
    and "map_of kvs ''models'' = Some (JArr ms)"
    and "list_all2 (\<lambda>m n. \<exists>kv. m = JObj kv \<and> map_of kv ''name'' = Some n) ms ns"
  shows "list_models requests_get loads base_url api_key = \<lparr>warning = None, models = ns\<rparr>"
proof -
  have "list_models_try requests_get loads base_url api_key = names ms"
    using assms(1-4) by (simp add: list_models_try_def)
  also have "\<dots> = Inr ns"
    by (rule names_of_records [OF assms(5)])
  finally show ?thesis
    by (simp add: list_models_def)
qed

theorem list_models_names_in_order_witness:
  "list_all2 (\<lambda>m n. \<exists>kv. m = JObj kv \<and> map_of kv ''name'' = Some n)
     [JObj [(''name'', JStr ''qwen2.5'')], JObj [(''name'', JStr ''llama3:8b'')],
      JObj [(''name'', JStr ''qwen2.5'')]]
     [JStr ''qwen2.5'', JStr ''llama3:8b'', JStr ''qwen2.5''] \<and>
   list_models (tags_service body_tags) decode local_url [] =
     \<lparr>warning = None, models = [JStr ''qwen2.5'', JStr ''llama3:8b'', JStr ''qwen2.5'']\<rparr>"
proof -
  have get: "tags_service body_tags (api_url local_url ''/api/tags'') (auth_headers (Some [])) =
      Inr \<lparr>http_error = False, body = body_tags, iter_lines = [], broken = None\<rparr>"
    by (rule local_tags_request)
  have ok: "\<not> http_error \<lparr>http_error = False, body = body_tags, iter_lines = [], broken = None\<rparr>"
    by simp
  have data: "decode (body \<lparr>http_error = False, body = body_tags, iter_lines = [], broken = None\<rparr>) =
      Inr (JObj [(''models'',
                  JArr [JObj [(''name'', JStr ''qwen2.5'')],
                        JObj [(''name'', JStr ''llama3:8b'')],
                        JObj [(''name'', JStr ''qwen2.5'')]])])"
    by (simp add: decode_bodies)
  have field: "map_of [(''models'',
                  JArr [JObj [(''name'', JStr ''qwen2.5'')],
                        JObj [(''name'', JStr ''llama3:8b'')],
                        JObj [(''name'', JStr ''qwen2.5'')]])] ''models'' =
      Some (JArr [JObj [(''name'', JStr ''qwen2.5'')],
                        JObj [(''name'', JStr ''llama3:8b'')],
                        JObj [(''name'', JStr ''qwen2.5'')]])"
    by simp
  have recs: "list_all2 (\<lambda>m n. \<exists>kv. m = JObj kv \<and> map_of kv ''name'' = Some n)
     [JObj [(''name'', JStr ''qwen2.5'')], JObj [(''name'', JStr ''llama3:8b'')],
      JObj [(''name'', JStr ''qwen2.5'')]]
     [JStr ''qwen2.5'', JStr ''llama3:8b'', JStr ''qwen2.5'']"
    by simp
  from list_models_names_in_order [where requests_get = "tags_service body_tags"
      and base_url = local_url and api_key = "[]" and loads = decode, OF get ok data field recs] recs
  show ?thesis by simp
qed

section \<open>The transcript after a completed stream\<close>

lemma assistant_reply_strings:
  assumes "raised r = None" and "yielded r = map JStr ss"
  shows "assistant_reply r msgs =
           \<lparr>messages = msgs @ [\<lparr>role = ''assistant'', content = strip (concat ss)\<rparr>], failed = None\<rparr>"
proof -
  have "accumulate (map JStr ss) (map JStr []) = Inr (map JStr ([] @ ss))"
    by (rule accumulate_strings)
  then have "accumulate (yielded r) [] = Inr (map JStr ss)"
    using assms(2) by simp
  with assms(1) show ?thesis
    by (simp add: assistant_reply_def join_strings)
qed

text \<open>
  C10. The stream completes without raising when the loop of the caller has taken
  every fragment (each join for display has succeeded, so the generator was never
  left suspended at a \<^verbatim>\<open>yield\<close>) and the generator has ended without an exception.
  Then every fragment is a string, and the caller appends exactly one assistant
  message, whose content is the concatenation of the fragments in the order they
  were yielded, with the whitespace at both ends removed. A stream that completes
  with no fragment at all still appends an assistant message, with empty content.
\<close>

theorem completed_stream_appends_reply:
  assumes "raised (stream_chat requests_post loads base_url api_key model msgs temperature) = None"
    and "accumulate (yielded (stream_chat requests_post loads base_url api_key model msgs temperature))
           [] = Inr acc"
  shows "(\<exists>ss. yielded (stream_chat requests_post loads base_url api_key model msgs temperature) =
                 map JStr ss \<and>
               assistant_reply
                 (stream_chat requests_post loads base_url api_key model msgs temperature) msgs =
                 \<lparr>messages = msgs @ [\<lparr>role = ''assistant'', content = strip (concat ss)\<rparr>],
                  failed = None\<rparr>) \<and>
         (yielded (stream_chat requests_post loads base_url api_key model msgs temperature) = [] \<longrightarrow>
            assistant_reply
              (stream_chat requests_post loads base_url api_key model msgs temperature) msgs =
              \<lparr>messages = msgs @ [\<lparr>role = ''assistant'', content = []\<rparr>], failed = None\<rparr>)"
proof -
  let ?run = "stream_chat requests_post loads base_url api_key model msgs temperature"
  from accumulate_all [OF assms(2)] obtain ss where ss: "yielded ?run = map JStr ss"
    by auto
  have reply: "assistant_reply ?run msgs =
      \<lparr>messages = msgs @ [\<lparr>role = ''assistant'', content = strip (concat ss)\<rparr>], failed = None\<rparr>"
    by (rule assistant_reply_strings [OF assms(1) ss])
  have "yielded ?run = [] \<longrightarrow> assistant_reply ?run msgs =
      \<lparr>messages = msgs @ [\<lparr>role = ''assistant'', content = []\<rparr>], failed = None\<rparr>"
    using ss reply by (auto simp add: strip_empty)
  with ss reply show ?thesis by blast
qed

theorem completed_stream_appends_reply_witness:
  "raised (local_chat [line_space, line_hel, line_nbsp, line_done]) = None \<and>
   yielded (local_chat [line_space, line_hel, line_nbsp, line_done]) =
     [JStr '' '', JStr ''Hel'', JStr (''lo'' @ [CHR 0xC2, CHR 0xA0])] \<and>
   accumulate (yielded (local_chat [line_space, line_hel, line_nbsp, line_done])) [] =
     Inr [JStr '' '', JStr ''Hel'', JStr (''lo'' @ [CHR 0xC2, CHR 0xA0])] \<and>
   assistant_reply (local_chat [line_space, line_hel, line_nbsp, line_done]) transcript =
     \<lparr>messages = transcript @ [\<lparr>role = ''assistant'', content = ''Hello''\<rparr>], failed = None\<rparr> \<and>
   raised (local_chat [line_done]) = None \<and>
   yielded (local_chat [line_done]) = [] \<and>
   assistant_reply (local_chat [line_done]) transcript =
     \<lparr>messages = transcript @ [\<lparr>role = ''assistant'', content = []\<rparr>], failed = None\<rparr>"
proof -
  have hello: "local_chat [line_space, line_hel, line_nbsp, line_done] =
      \<lparr>yielded = [JStr '' '', JStr ''Hel'', JStr (''lo'' @ [CHR 0xC2, CHR 0xA0])], raised = None,
       unread = []\<rparr>"
    by (simp add: local_chat_lines line_runs)
  have silent: "local_chat [line_done] = \<lparr>yielded = [], raised = None, unread = []\<rparr>"
    by (simp add: local_chat_lines line_runs)
  have trimmed: "strip (concat ['' '', ''Hel'', ''lo'' @ [CHR 0xC2, CHR 0xA0]]) = ''Hello''"
    using strip_values(2) by simp
  have r1: "raised (stream_chat (chat_service [line_space, line_hel, line_nbsp, line_done]) decode
      (local_url @ ''/'') [] ''llama3'' transcript (1 / 5)) = None"
    using hello by (simp add: local_chat_def)
  have a1: "accumulate (yielded (stream_chat (chat_service [line_space, line_hel, line_nbsp, line_done])
      decode (local_url @ ''/'') [] ''llama3'' transcript (1 / 5))) [] =
      Inr [JStr '' '', JStr ''Hel'', JStr (''lo'' @ [CHR 0xC2, CHR 0xA0])]"
    using hello by (simp add: local_chat_def)
  have r2: "raised (stream_chat (chat_service [line_done]) decode
      (local_url @ ''/'') [] ''llama3'' transcript (1 / 5)) = None"
    using silent by (simp add: local_chat_def)
  have a2: "accumulate (yielded (stream_chat (chat_service [line_done]) decode
      (local_url @ ''/'') [] ''llama3'' transcript (1 / 5))) [] = Inr []"
    using silent by (simp add: local_chat_def)
  let ?run = "stream_chat (chat_service [line_space, line_hel, line_nbsp, line_done]) decode
      (local_url @ ''/'') [] ''llama3'' transcript (1 / 5)"
  from completed_stream_appends_reply [OF r1 a1]
  have "\<exists>ss. yielded ?run = map JStr ss \<and>
      assistant_reply ?run transcript =
        \<lparr>messages = transcript @ [\<lparr>role = ''assistant'', content = strip (concat ss)\<rparr>],
         failed = None\<rparr>"
    by (rule conjunct1)
  then obtain ss where y: "yielded ?run = map JStr ss"
    and reply: "assistant_reply ?run transcript =
        \<lparr>messages = transcript @ [\<lparr>role = ''assistant'', content = strip (concat ss)\<rparr>],
         failed = None\<rparr>"
    by blast
  from y hello have "map JStr ss = [JStr '' '', JStr ''Hel'', JStr (''lo'' @ [CHR 0xC2, CHR 0xA0])]"
    by (simp add: local_chat_def)
  then have "ss = ['' '', ''Hel'', ''lo'' @ [CHR 0xC2, CHR 0xA0]]"
    by auto
  with reply trimmed have first: "assistant_reply
      (local_chat [line_space, line_hel, line_nbsp, line_done]) transcript =
      \<lparr>messages = transcript @ [\<lparr>role = ''assistant'', content = ''Hello''\<rparr>], failed = None\<rparr>"
    by (simp add: local_chat_def)
  from completed_stream_appends_reply [OF r2 a2] silent
  have second: "assistant_reply (local_chat [line_done]) transcript =
      \<lparr>messages = transcript @ [\<lparr>role = ''assistant'', content = []\<rparr>], failed = None\<rparr>"
    by (simp add: local_chat_def strip_empty)
  from hello silent a1 first second show ?thesis
    by (simp add: local_chat_def)
qed

text \<open>
  A fragment that is not a string never reaches the end of the stream: on the line
  \<^verbatim>\<open>{"message":{"content":5}}\<close> the generator yields the number 5, the join of the
  caller's loop raises \<^verbatim>\<open>TypeError\<close> at once, and the \<^verbatim>\<open>except\<close> clause takes it with
  the generator left suspended. Nothing is appended, and the stream has not
  completed.
\<close>

lemma number_fragment_abandons_stream:
  "accumulate (yielded (local_chat [line_number_content, line_done])) [] = Inl TypeError \<and>
   assistant_reply (local_chat [line_number_content, line_done]) transcript =
     \<lparr>messages = transcript, failed = Some TypeError\<rparr>"
  by (simp add: local_chat_lines line_runs assistant_reply_def)

end
